theory Spec2Isabelle
  imports Main "HOL-Library.Word" "HOL-Library.Multiset"
begin

section \<open>JavaScript strings and values\<close>

text \<open>
  A JavaScript string is a sequence of 16-bit code units; \<open>length\<close> is the source's
  \<^verbatim>\<open>.length\<close>. \<open>js\<close> embeds an ASCII literal of the source.
\<close>

type_synonym jschar = "16 word"
type_synonym jsstring = "jschar list"

definition js :: "string \<Rightarrow> jsstring" where
  "js s = map of_char s"

text \<open>
  ECMAScript WhiteSpace and LineTerminator code units: what \<^verbatim>\<open>\s\<close> matches in a regular
  expression and what \<^verbatim>\<open>String.prototype.trim\<close> strips (TAB, LF, VT, FF, CR, SP, NBSP,
  the Unicode space separators, LS, PS and the byte order mark).
\<close>

definition is_space :: "jschar \<Rightarrow> bool" where
  "is_space c =
     (c = 0x9 \<or> c = 0xA \<or> c = 0xB \<or> c = 0xC \<or> c = 0xD \<or> c = 0x20 \<or> c = 0xA0 \<or>
      c = 0x1680 \<or> (0x2000 \<le> c \<and> c \<le> 0x200A) \<or> c = 0x2028 \<or> c = 0x2029 \<or>
      c = 0x202F \<or> c = 0x205F \<or> c = 0x3000 \<or> c = 0xFEFF)"

definition is_digit :: "jschar \<Rightarrow> bool" where
  "is_digit c = (0x30 \<le> c \<and> c \<le> 0x39)"

definition trim :: "jsstring \<Rightarrow> jsstring" where
  "trim s = rev (dropWhile is_space (rev (dropWhile is_space s)))"

text \<open>
  Field values are dynamically typed: a string (text inputs, selects), a boolean
  (checkboxes), or \<^verbatim>\<open>undefined\<close> when neither the data object nor its prototype has
  the key. \<open>Native t\<close> is an object or function of the runtime, which is truthy and whose
  string conversion is \<open>t\<close>: reading a key such as \<^verbatim>\<open>constructor\<close> from a plain object
  yields one.
\<close>

datatype jsval = Undefined | Str jsstring | Bool bool | Native jsstring

fun truthy :: "jsval \<Rightarrow> bool" where
  "truthy Undefined = False"
| "truthy (Str s) = (s \<noteq> [])"
| "truthy (Bool b) = b"
| "truthy (Native t) = True"

fun falsy :: "jsval \<Rightarrow> bool" where
  "falsy Undefined = True"
| "falsy (Str s) = (s = [])"
| "falsy (Bool b) = (b = False)"
| "falsy (Native t) = False"

text \<open>
  String coercion. The source calls \<^verbatim>\<open>value.toString()\<close> only behind a truthiness test
  (on \<^verbatim>\<open>undefined\<close> the method call would throw), and \<^verbatim>\<open>regex.test(value)\<close> coerces
  its argument the same way.
\<close>

fun toString :: "jsval \<Rightarrow> jsstring" where
  "toString Undefined = js ''undefined''"
| "toString (Str s) = s"
| "toString (Bool b) = (if b then js ''true'' else js ''false'')"
| "toString (Native t) = t"

text \<open>Decimal digits of a natural number, most significant first.\<close>

definition digit :: "nat \<Rightarrow> jschar" where
  "digit d = of_nat (48 + d)"

fun digits :: "nat \<Rightarrow> jsstring" where
  "digits n = (if n < 10 then [digit n] else digits (n div 10) @ [digit (n mod 10)])"

declare digits.simps [simp del]

text \<open>
  The length bounds of a field are whole Numbers that JavaScript holds exactly (safe
  integers, of magnitude at most 2^53 - 1); a template literal writes such a Number in
  plain decimal.
\<close>

typedef safe_int = "{i :: int. abs i \<le> 9007199254740991}"
  by (rule exI [of _ 0]) simp

definition show_int :: "safe_int \<Rightarrow> jsstring" where
  "show_int n =
     (if Rep_safe_int n < 0 then js ''-'' @ digits (nat (- Rep_safe_int n))
      else digits (nat (Rep_safe_int n)))"

section \<open>Regular expressions\<close>

text \<open>
  The two regular expression literals of the source are written as terms of \<open>rexp\<close> and
  run by a derivative matcher. Both literals are anchored at \<^verbatim>\<open>^\<close> and \<^verbatim>\<open>$\<close> and carry no
  flag, so \<^verbatim>\<open>test\<close> succeeds exactly when the whole string matches.
\<close>

datatype rexp =
    Zero
  | One
  | Cls "jschar \<Rightarrow> bool"
  | Alt rexp rexp
  | Seq rexp rexp
  | Star rexp

fun nullable :: "rexp \<Rightarrow> bool" where
  "nullable Zero = False"
| "nullable One = True"
| "nullable (Cls p) = False"
| "nullable (Alt r s) = (nullable r \<or> nullable s)"
| "nullable (Seq r s) = (nullable r \<and> nullable s)"
| "nullable (Star r) = True"

fun deriv :: "jschar \<Rightarrow> rexp \<Rightarrow> rexp" where
  "deriv c Zero = Zero"
| "deriv c One = Zero"
| "deriv c (Cls p) = (if p c then One else Zero)"
| "deriv c (Alt r s) = Alt (deriv c r) (deriv c s)"
| "deriv c (Seq r s) =
     (if nullable r then Alt (Seq (deriv c r) s) (deriv c s) else Seq (deriv c r) s)"
| "deriv c (Star r) = Seq (deriv c r) (Star r)"

fun matches :: "rexp \<Rightarrow> jsstring \<Rightarrow> bool" where
  "matches r [] = nullable r"
| "matches r (c # cs) = matches (deriv c r) cs"

definition Plus :: "rexp \<Rightarrow> rexp" where
  "Plus r = Seq r (Star r)"

definition Chr :: "jschar \<Rightarrow> rexp" where
  "Chr c = Cls (\<lambda>x. x = c)"

text \<open>\<^verbatim>\<open>[^\s@]\<close>\<close>

definition notSpaceAt :: "jschar \<Rightarrow> bool" where
  "notSpaceAt c = (\<not> is_space c \<and> c \<noteq> 0x40)"

text \<open>\<^verbatim>\<open>const emailRegex = /^[^\s@]+@[^\s@]+\.[^\s@]+$/\<close>\<close>

definition emailRegex :: rexp where
  "emailRegex =
     Seq (Plus (Cls notSpaceAt))
       (Seq (Chr 0x40) (Seq (Plus (Cls notSpaceAt)) (Seq (Chr 0x2E) (Plus (Cls notSpaceAt)))))"

text \<open>\<^verbatim>\<open>[\d\s\-\+\(\)]\<close>\<close>

definition phoneChar :: "jschar \<Rightarrow> bool" where
  "phoneChar c =
     (is_digit c \<or> is_space c \<or> c = 0x2D \<or> c = 0x2B \<or> c = 0x28 \<or> c = 0x29)"

text \<open>\<^verbatim>\<open>const phoneRegex = /^[\d\s\-\+\(\)]+$/\<close>\<close>

definition phoneRegex :: rexp where
  "phoneRegex = Plus (Cls phoneChar)"

text \<open>
  \<^verbatim>\<open>new RegExp(field.validation.pattern)\<close> compiles a pattern that the configuration
  supplies. The engine is the JavaScript runtime's; the model takes it as a parameter
  \<open>RegExp\<close>: \<open>None\<close> when the constructor throws a SyntaxError (the pattern is not a
  regular expression), otherwise the compiled expression's \<^verbatim>\<open>test\<close>.
\<close>

type_synonym regexp_engine = "jsstring \<Rightarrow> (jsstring \<Rightarrow> bool) option"

datatype error = ReferenceError | TypeError | SyntaxError

section \<open>Form configuration (src/lib/types.ts)\<close>

datatype FieldType = Text | Email | Phone | Textarea | Select | Checkbox

record Validation =
  v_min :: "safe_int option"
  v_max :: "safe_int option"
  v_pattern :: "jsstring option"

record FormField =
  field_id :: jsstring
  name :: jsstring
  label :: jsstring
  ftype :: FieldType
  required :: bool
  placeholder :: "jsstring option"
  options :: "jsstring list option"
  validation :: "Validation option"

text \<open>
  \<open>form_fields\<close> is the source's \<^verbatim>\<open>fields\<close> (the record package reserves that name).
  \<open>columns\<close> is a column count (schema: a number from 1 to 4); the composer's
  \<^verbatim>\<open>|| 1\<close> treats 0 like an absent count.
\<close>

record Layout =
  columns :: "nat option"
  fieldOrder :: "jsstring list option"

record Settings =
  show_progress :: "bool option"
  auto_save :: "bool option"
  confirmation_message :: "jsstring option"
  redirect_url :: "jsstring option"

record FormConfig =
  config_id :: jsstring
  org_id :: jsstring
  org_code :: jsstring
  form_fields :: "FormField list"
  layout :: "Layout option"
  settings :: "Settings option"

section \<open>The Validation Utility (validateField, src/lib/utils.ts)\<close>

record ValidationResult =
  isValid :: bool
  error :: "jsstring option"

definition passed :: ValidationResult where
  "passed = \<lparr>isValid = True, error = None\<rparr>"

definition failed :: "jsstring \<Rightarrow> ValidationResult" where
  "failed msg = \<lparr>isValid = False, error = Some msg\<rparr>"

text \<open>\<^verbatim>\<open>!value || value.toString().trim() === ''\<close>\<close>

definition blank :: "jsval \<Rightarrow> bool" where
  "blank v = (falsy v \<or> trim (toString v) = [])"

text \<open>
  \<^verbatim>\<open>field.validation?.min && strValue.length < field.validation.min\<close>: the bound when it is
  violated. A bound of 0 is falsy and checks nothing.
\<close>

definition tooShort :: "FormField \<Rightarrow> jsstring \<Rightarrow> safe_int option" where
  "tooShort field strValue =
     (case validation field of
        None \<Rightarrow> None
      | Some v \<Rightarrow>
          (case v_min v of
             None \<Rightarrow> None
           | Some m \<Rightarrow>
               if Rep_safe_int m \<noteq> 0 \<and> int (length strValue) < Rep_safe_int m then Some m
               else None))"

definition tooLong :: "FormField \<Rightarrow> jsstring \<Rightarrow> safe_int option" where
  "tooLong field strValue =
     (case validation field of
        None \<Rightarrow> None
      | Some v \<Rightarrow>
          (case v_max v of
             None \<Rightarrow> None
           | Some m \<Rightarrow>
               if Rep_safe_int m \<noteq> 0 \<and> int (length strValue) > Rep_safe_int m then Some m
               else None))"

text \<open>\<^verbatim>\<open>field.validation?.pattern\<close> when it is truthy (present and not the empty string).\<close>

definition patternOf :: "FormField \<Rightarrow> jsstring option" where
  "patternOf field =
     (case validation field of
        None \<Rightarrow> None
      | Some v \<Rightarrow>
          (case v_pattern v of
             None \<Rightarrow> None
           | Some p \<Rightarrow> if p = [] then None else Some p))"

definition atLeastMsg :: "safe_int \<Rightarrow> jsstring" where
  "atLeastMsg m = js ''Must be at least '' @ show_int m @ js '' characters''"

definition noMoreMsg :: "safe_int \<Rightarrow> jsstring" where
  "noMoreMsg m = js ''Must be no more than '' @ show_int m @ js '' characters''"

definition requiredMsg :: "FormField \<Rightarrow> jsstring" where
  "requiredMsg field = label field @ js '' is required''"

text \<open>The \<^verbatim>\<open>case 'text': case 'textarea':\<close> arm of validateField.\<close>

definition validateText :: "regexp_engine \<Rightarrow> FormField \<Rightarrow> jsstring \<Rightarrow> error + ValidationResult" where
  "validateText RegExp field strValue =
     (case tooShort field strValue of
        Some m \<Rightarrow> Inr (failed (atLeastMsg m))
      | None \<Rightarrow>
          (case tooLong field strValue of
             Some m \<Rightarrow> Inr (failed (noMoreMsg m))
           | None \<Rightarrow>
               (case patternOf field of
                  None \<Rightarrow> Inr passed
                | Some p \<Rightarrow>
                    (case RegExp p of
                       None \<Rightarrow> Inl SyntaxError
                     | Some test \<Rightarrow>
                         if test strValue then Inr passed
                         else Inr (failed (js ''Invalid format''))))))"

definition validateField :: "regexp_engine \<Rightarrow> FormField \<Rightarrow> jsval \<Rightarrow> error + ValidationResult" where
  "validateField RegExp field v =
     (if required field \<and> blank v then Inr (failed (requiredMsg field))
      else if falsy v then Inr passed
      else
        (case ftype field of
           Email \<Rightarrow>
             if matches emailRegex (toString v) then Inr passed
             else Inr (failed (js ''Please enter a valid email address''))
         | Phone \<Rightarrow>
             if matches phoneRegex (toString v) then Inr passed
             else Inr (failed (js ''Please enter a valid phone number''))
         | Text \<Rightarrow> validateText RegExp field (toString v)
         | Textarea \<Rightarrow> validateText RegExp field (toString v)
         | Select \<Rightarrow> Inr passed
         | Checkbox \<Rightarrow> Inr passed))"

section \<open>The Form State Store (src/lib/stores.ts)\<close>

record FormState =
  config :: "FormConfig option"
  data :: "jsstring \<rightharpoonup> jsval"
  errors :: "jsstring \<rightharpoonup> jsstring"
  isSubmitting :: bool
  isSubmitted :: bool
  sessionId :: jsstring
  lastSaved :: "nat option"

text \<open>
  The module's stores and what they reach: the \<^verbatim>\<open>formState\<close> and \<^verbatim>\<open>formConfig\<close> stores, the
  \<^verbatim>\<open>lastAutoSave\<close> store, and the browser's localStorage. \<open>browser\<close> is SvelteKit's flag;
  it also stands for the helpers' own test \<^verbatim>\<open>typeof window === 'undefined'\<close>, which is its
  negation. Timestamps are \<^verbatim>\<open>Date.now()\<close> milliseconds.
\<close>

record World =
  formState :: FormState
  formConfig :: "FormConfig option"
  lastAutoSave :: "nat option"
  browser :: bool
  localStorage :: "jsstring \<rightharpoonup> jsstring"

text \<open>
  What the runtime contributes to the storage helpers: \<^verbatim>\<open>JSON.stringify\<close>, \<^verbatim>\<open>JSON.parse\<close>
  (\<open>None\<close> when it throws or yields a falsy value) and whether \<^verbatim>\<open>localStorage.setItem\<close>
  accepts a write (it throws when the quota is exceeded).
\<close>

record Runtime =
  JSON_stringify :: "(jsstring \<rightharpoonup> jsval) \<Rightarrow> jsstring"
  JSON_parse :: "jsstring \<Rightarrow> (jsstring \<rightharpoonup> jsval) option"
  setItem_ok :: "(jsstring \<rightharpoonup> jsstring) \<Rightarrow> jsstring \<Rightarrow> jsstring \<Rightarrow> bool"

text \<open>
  The members that every plain object inherits from \<^verbatim>\<open>Object.prototype\<close>: eleven
  functions and the accessor \<^verbatim>\<open>__proto__\<close>, which yields the prototype itself. The texts
  are their string conversions as V8 writes them (engines differ in the white space).
\<close>

definition nativeFunction :: "string \<Rightarrow> jsval" where
  "nativeFunction f = Native (js ''function '' @ js f @ js ''() { [native code] }'')"

definition objectPrototype :: "jsstring \<rightharpoonup> jsval" where
  "objectPrototype =
     [js ''constructor'' \<mapsto> nativeFunction ''Object'',
      js ''__defineGetter__'' \<mapsto> nativeFunction ''__defineGetter__'',
      js ''__defineSetter__'' \<mapsto> nativeFunction ''__defineSetter__'',
      js ''hasOwnProperty'' \<mapsto> nativeFunction ''hasOwnProperty'',
      js ''__lookupGetter__'' \<mapsto> nativeFunction ''__lookupGetter__'',
      js ''__lookupSetter__'' \<mapsto> nativeFunction ''__lookupSetter__'',
      js ''isPrototypeOf'' \<mapsto> nativeFunction ''isPrototypeOf'',
      js ''propertyIsEnumerable'' \<mapsto> nativeFunction ''propertyIsEnumerable'',
      js ''toString'' \<mapsto> nativeFunction ''toString'',
      js ''valueOf'' \<mapsto> nativeFunction ''valueOf'',
      js ''toLocaleString'' \<mapsto> nativeFunction ''toLocaleString'',
      js ''__proto__'' \<mapsto> Native (js ''[object Object]'')]"

text \<open>
  \<^verbatim>\<open>obj[key]\<close> on a plain object: its own property, else the inherited member, else
  \<^verbatim>\<open>undefined\<close>.
\<close>

definition getProp :: "(jsstring \<rightharpoonup> jsval) \<Rightarrow> jsstring \<Rightarrow> jsval" where
  "getProp obj key =
     (case obj key of
        Some v \<Rightarrow> v
      | None \<Rightarrow> (case objectPrototype key of Some v \<Rightarrow> v | None \<Rightarrow> Undefined))"

text \<open>The key \<^verbatim>\<open>`form_${config.id}_data`\<close>.\<close>

definition storageKey :: "jsstring \<Rightarrow> jsstring" where
  "storageKey cid = js ''form_'' @ cid @ js ''_data''"

text \<open>
  \<^verbatim>\<open>`session_${Date.now()}_${Math.random().toString(36).substr(2, 9)}`\<close>: \<open>now\<close> is the clock's
  reading and \<open>rnd\<close> the suffix cut from the random draw.
\<close>

definition generateSessionId :: "nat \<Rightarrow> jsstring \<Rightarrow> jsstring" where
  "generateSessionId now rnd = js ''session_'' @ digits now @ js ''_'' @ rnd"

text \<open>The \<^verbatim>\<open>storage\<close> helpers of src/lib/utils.ts.\<close>

definition storage_get :: "Runtime \<Rightarrow> jsstring \<Rightarrow> World \<Rightarrow> (jsstring \<rightharpoonup> jsval) option" where
  "storage_get rt key w =
     (if \<not> browser w then None
      else
        (case localStorage w key of
           None \<Rightarrow> None
         | Some item \<Rightarrow> if item = [] then None else JSON_parse rt item))"

definition storage_set :: "Runtime \<Rightarrow> jsstring \<Rightarrow> (jsstring \<rightharpoonup> jsval) \<Rightarrow> World \<Rightarrow> World" where
  "storage_set rt key v w =
     (if \<not> browser w then w
      else if setItem_ok rt (localStorage w) key (JSON_stringify rt v)
      then w\<lparr>localStorage := (localStorage w)(key \<mapsto> JSON_stringify rt v)\<rparr>
      else w)"

definition storage_remove :: "jsstring \<Rightarrow> World \<Rightarrow> World" where
  "storage_remove key w =
     (if \<not> browser w then w else w\<lparr>localStorage := (localStorage w)(key := None)\<rparr>)"

text \<open>\<^verbatim>\<open>config.settings?.auto_save\<close> is truthy.\<close>

definition autoSaveOn :: "FormConfig \<Rightarrow> bool" where
  "autoSaveOn cfg =
     (case settings cfg of None \<Rightarrow> False | Some s \<Rightarrow> auto_save s = Some True)"

definition initialize :: "Runtime \<Rightarrow> nat \<Rightarrow> jsstring \<Rightarrow> FormConfig \<Rightarrow> World \<Rightarrow> World" where
  "initialize rt now rnd cfg w =
     (let w1 = w\<lparr>formState := (formState w)\<lparr>config := Some cfg, data := Map.empty,
                   errors := Map.empty, isSubmitted := False,
                   sessionId := generateSessionId now rnd\<rparr>,
                 formConfig := Some cfg\<rparr>
      in if browser w1 \<and> autoSaveOn cfg
         then (case storage_get rt (storageKey (config_id cfg)) w1 of
                 None \<Rightarrow> w1
               | Some savedData \<Rightarrow> w1\<lparr>formState := (formState w1)\<lparr>data := savedData\<rparr>\<rparr>)
         else w1)"

text \<open>
  updateField. The auto-save test reads \<^verbatim>\<open>autoSaveEnabled\<close>, the store object itself, which
  is always truthy. \<open>now\<close> is the \<^verbatim>\<open>new Date()\<close> written to \<^verbatim>\<open>lastAutoSave\<close>.
\<close>

definition updateField :: "Runtime \<Rightarrow> nat \<Rightarrow> jsstring \<Rightarrow> jsval \<Rightarrow> World \<Rightarrow> World" where
  "updateField rt now fieldName v w =
     (let state = formState w;
          newData = (data state)(fieldName \<mapsto> v);
          newErrors = (errors state)(fieldName := None);
          w1 = (case config state of
                  None \<Rightarrow> w
                | Some cfg \<Rightarrow>
                    if browser w \<and> autoSaveOn cfg
                    then (storage_set rt (storageKey (config_id cfg)) newData w)
                           \<lparr>lastAutoSave := Some now\<rparr>
                    else w)
      in w1\<lparr>formState := state\<lparr>data := newData, errors := newErrors\<rparr>\<rparr>)"

definition setFieldError :: "jsstring \<Rightarrow> jsstring \<Rightarrow> World \<Rightarrow> World" where
  "setFieldError fieldName err w =
     w\<lparr>formState := (formState w)\<lparr>errors := (errors (formState w))(fieldName \<mapsto> err)\<rparr>\<rparr>"

definition clearFieldError :: "jsstring \<Rightarrow> World \<Rightarrow> World" where
  "clearFieldError fieldName w =
     w\<lparr>formState := (formState w)\<lparr>errors := (errors (formState w))(fieldName := None)\<rparr>\<rparr>"

definition clearErrors :: "World \<Rightarrow> World" where
  "clearErrors w = w\<lparr>formState := (formState w)\<lparr>errors := Map.empty\<rparr>\<rparr>"

definition setSubmitting :: "bool \<Rightarrow> World \<Rightarrow> World" where
  "setSubmitting b w = w\<lparr>formState := (formState w)\<lparr>isSubmitting := b\<rparr>\<rparr>"

text \<open>
  setSubmitted. After the update, the test \<^verbatim>\<open>browser && state.config?.id\<close> names \<^verbatim>\<open>state\<close>,
  which only the update's callback binds: once \<^verbatim>\<open>browser\<close> is true, evaluating it throws a
  ReferenceError, and \<^verbatim>\<open>storage.remove\<close> is never reached. The result is the exception
  thrown, if any, and the world left behind.
\<close>

definition setSubmitted :: "World \<Rightarrow> error option \<times> World" where
  "setSubmitted w =
     (let w1 = w\<lparr>formState := (formState w)\<lparr>isSubmitted := True\<rparr>\<rparr>
      in if browser w1 then (Some ReferenceError, w1) else (None, w1))"

definition reset :: "nat \<Rightarrow> jsstring \<Rightarrow> World \<Rightarrow> World" where
  "reset now rnd w =
     (case formConfig w of
        None \<Rightarrow> w
      | Some cfg \<Rightarrow>
          (let w1 = w\<lparr>formState := (formState w)\<lparr>data := Map.empty, errors := Map.empty,
                        isSubmitted := False, sessionId := generateSessionId now rnd\<rparr>\<rparr>
           in if browser w1 then storage_remove (storageKey (config_id cfg)) w1 else w1))"

text \<open>
  validate: the loop body for one field, on the accumulated \<^verbatim>\<open>isValid\<close> flag and
  \<^verbatim>\<open>errors\<close> object. In the text arm both length checks run, the second overwriting the
  first's message; the arm has no pattern check.
\<close>

definition validateTextStep ::
  "FormField \<Rightarrow> jsstring \<Rightarrow> bool \<times> (jsstring \<rightharpoonup> jsstring) \<Rightarrow> bool \<times> (jsstring \<rightharpoonup> jsstring)" where
  "validateTextStep field strValue acc =
     (let acc1 = (case tooShort field strValue of
                    Some m \<Rightarrow> (False, (snd acc)(name field \<mapsto> atLeastMsg m))
                  | None \<Rightarrow> acc)
      in (case tooLong field strValue of
            Some m \<Rightarrow> (False, (snd acc1)(name field \<mapsto> noMoreMsg m))
          | None \<Rightarrow> acc1))"

definition validateStep ::
  "(jsstring \<rightharpoonup> jsval) \<Rightarrow> bool \<times> (jsstring \<rightharpoonup> jsstring) \<Rightarrow> FormField \<Rightarrow> bool \<times> (jsstring \<rightharpoonup> jsstring)" where
  "validateStep d acc field =
     (let v = getProp d (name field)
      in if required field \<and> blank v
         then (False, (snd acc)(name field \<mapsto> requiredMsg field))
         else if truthy v
         then (case ftype field of
                 Email \<Rightarrow>
                   if matches emailRegex (toString v) then acc
                   else (False, (snd acc)(name field \<mapsto> js ''Please enter a valid email address''))
               | Phone \<Rightarrow>
                   if matches phoneRegex (toString v) then acc
                   else (False, (snd acc)(name field \<mapsto> js ''Please enter a valid phone number''))
               | Text \<Rightarrow> validateTextStep field (toString v) acc
               | Textarea \<Rightarrow> validateTextStep field (toString v) acc
               | Select \<Rightarrow> acc
               | Checkbox \<Rightarrow> acc)
         else acc)"

definition validate :: "World \<Rightarrow> bool \<times> World" where
  "validate w =
     (let state = formState w
      in (case config state of
            None \<Rightarrow> (False, w)
          | Some cfg \<Rightarrow>
              (let r = foldl (validateStep (data state)) (True, Map.empty) (form_fields cfg)
               in (fst r, w\<lparr>formState := state\<lparr>errors := snd r\<rparr>\<rparr>))))"

section \<open>The Dynamic Form Composer (src/lib/components/DynamicForm.svelte)\<close>

text \<open>
  The component's own variables \<^verbatim>\<open>formData\<close>, \<^verbatim>\<open>errors\<close> and \<^verbatim>\<open>isSubmitting\<close>; the props
  \<^verbatim>\<open>config\<close> and \<^verbatim>\<open>disabled\<close> are arguments.
\<close>

record Composer =
  formData :: "jsstring \<rightharpoonup> jsval"
  c_errors :: "jsstring \<rightharpoonup> jsstring"
  c_isSubmitting :: bool

text \<open>The body of the request that handleSubmit sends; \<^verbatim>\<open>session_id\<close> reads a property that
  the store object does not have and is \<^verbatim>\<open>undefined\<close>.\<close>

record SubmissionData =
  s_form_id :: jsstring
  s_org_code :: jsstring
  s_data :: "jsstring \<rightharpoonup> jsval"
  s_user_agent :: jsstring
  s_referrer :: jsstring

datatype event =
    ValidationErrorEvent "jsstring \<rightharpoonup> jsstring"
  | SubmitEvent "jsstring \<rightharpoonup> jsval"
  | ErrorEvent jsstring

text \<open>
  What handleSubmit does to the outside, in order. \<open>UpdateErrors\<close>, \<open>UpdateSubmitting\<close> and
  \<open>UpdateSubmitted\<close> are calls of \<^verbatim>\<open>formState.updateState\<close> that return, with the fields they
  pass.
\<close>

datatype effect =
    UpdateErrors "jsstring \<rightharpoonup> jsstring"
  | UpdateSubmitting bool
  | UpdateSubmitted
  | TrackFormSubmit bool
  | Fetch SubmissionData
  | RemoveItem jsstring
  | ConsoleError
  | Dispatch event

fun isFetch :: "effect \<Rightarrow> bool" where
  "isFetch (Fetch d) = True"
| "isFetch e = False"

text \<open>What the awaited \<^verbatim>\<open>fetch\<close> and \<^verbatim>\<open>response.json()\<close> give: a rejection with its message, or
  the parsed result's \<^verbatim>\<open>success\<close> (as truthiness) and \<^verbatim>\<open>error\<close>.\<close>

datatype fetch_outcome = Rejected jsstring | Result bool "jsstring option"

record Page =
  userAgent :: jsstring
  referrer :: jsstring

text \<open>\<^verbatim>\<open>validation.error || `${field.label} is required`\<close>\<close>

definition errorOr :: "ValidationResult \<Rightarrow> FormField \<Rightarrow> jsstring" where
  "errorOr res field =
     (case error res of
        None \<Rightarrow> requiredMsg field
      | Some msg \<Rightarrow> if msg = [] then requiredMsg field else msg)"

text \<open>The validation loop of handleSubmit, on \<^verbatim>\<open>isValid\<close> and \<^verbatim>\<open>newErrors\<close>.\<close>

fun validateFields ::
  "regexp_engine \<Rightarrow> (jsstring \<rightharpoonup> jsval) \<Rightarrow> FormField list \<Rightarrow> bool \<times> (jsstring \<rightharpoonup> jsstring)
     \<Rightarrow> error + bool \<times> (jsstring \<rightharpoonup> jsstring)" where
  "validateFields RegExp d [] acc = Inr acc"
| "validateFields RegExp d (field # rest) acc =
     (case validateField RegExp field (getProp d (name field)) of
        Inl e \<Rightarrow> Inl e
      | Inr res \<Rightarrow>
          if isValid res then validateFields RegExp d rest acc
          else validateFields RegExp d rest
                 (False, (snd acc)(name field \<mapsto> errorOr res field)))"

definition submitFailed :: "Composer \<Rightarrow> effect list \<Rightarrow> jsstring \<Rightarrow> Composer \<times> effect list" where
  "submitFailed c sofar msg =
     (c\<lparr>c_isSubmitting := False\<rparr>,
      sofar @ [ConsoleError, UpdateSubmitting False, Dispatch (ErrorEvent msg)])"

text \<open>
  \<^verbatim>\<open>formState\<close> is the object that \<^verbatim>\<open>writable(...)\<close> returns (src/lib/stores.ts): its
  methods are \<^verbatim>\<open>subscribe\<close>, \<^verbatim>\<open>set\<close> and \<^verbatim>\<open>update\<close>. Any other property of it is
  \<^verbatim>\<open>undefined\<close>, and calling it throws a TypeError.
\<close>

definition storeMethods :: "jsstring list" where
  "storeMethods = [js ''subscribe'', js ''set'', js ''update'']"

definition callStoreMethod :: "jsstring \<Rightarrow> error option" where
  "callStoreMethod m = (if m \<in> set storeMethods then None else Some TypeError)"

text \<open>
  handleSubmit. The result is the exception that leaves the handler, if any, the
  component's variables, and the effects so far. The first call of
  \<^verbatim>\<open>formState.updateState\<close> comes right after \<^verbatim>\<open>errors = newErrors\<close> and outside the
  \<^verbatim>\<open>try\<close> block; what follows it runs only where that call returns.
\<close>

definition handleSubmit ::
  "regexp_engine \<Rightarrow> Page \<Rightarrow> fetch_outcome \<Rightarrow> FormConfig \<Rightarrow> bool \<Rightarrow> Composer
     \<Rightarrow> error option \<times> Composer \<times> effect list" where
  "handleSubmit RegExp page outcome cfg disabled c =
     (if c_isSubmitting c \<or> disabled then (None, c, [])
      else
        (case validateFields RegExp (formData c) (form_fields cfg) (True, Map.empty) of
           Inl e \<Rightarrow> (Some e, c, [])
         | Inr r \<Rightarrow>
             (let c1 = c\<lparr>c_errors := snd r\<rparr>
              in (case callStoreMethod (js ''updateState'') of
                    Some e \<Rightarrow> (Some e, c1, [])
                  | None \<Rightarrow>
                      (let e1 = [UpdateErrors (snd r)]
                       in if fst r = False
                          then (None, c1, e1 @ [Dispatch (ValidationErrorEvent (snd r))])
                          else
                            (let c2 = c1\<lparr>c_isSubmitting := True\<rparr>;
                                 submissionData =
                                   \<lparr>s_form_id = config_id cfg, s_org_code = org_code cfg,
                                    s_data = formData c, s_user_agent = userAgent page,
                                    s_referrer = referrer page\<rparr>;
                                 e2 = e1 @ [UpdateSubmitting True, TrackFormSubmit False,
                                            Fetch submissionData]
                             in (case outcome of
                                   Rejected msg \<Rightarrow> (None, submitFailed c2 e2 msg)
                                 | Result ok err \<Rightarrow>
                                     if ok
                                     then (None, c2\<lparr>c_isSubmitting := False\<rparr>,
                                            e2 @ [TrackFormSubmit True,
                                                  RemoveItem (storageKey (config_id cfg)),
                                                  UpdateSubmitted, UpdateSubmitting False,
                                                  Dispatch (SubmitEvent (formData c))])
                                     else (None, submitFailed c2 e2
                                            (case err of
                                               None \<Rightarrow> js ''Submission failed''
                                             | Some m \<Rightarrow>
                                                 if m = [] then js ''Submission failed''
                                                 else m)))))))))"

subsection \<open>getFieldLayout\<close>

text \<open>\<^verbatim>\<open>Array.prototype.indexOf\<close>: the first position, or -1.\<close>

fun indexOf :: "'a list \<Rightarrow> 'a \<Rightarrow> int" where
  "indexOf [] x = - 1"
| "indexOf (y # ys) x =
     (if y = x then 0 else (let i = indexOf ys x in if i < 0 then - 1 else i + 1))"

text \<open>\<^verbatim>\<open>config.layout?.columns || 1\<close>\<close>

definition columnsOf :: "FormConfig \<Rightarrow> nat" where
  "columnsOf cfg =
     (case layout cfg of
        None \<Rightarrow> 1
      | Some l \<Rightarrow> (case columns l of None \<Rightarrow> 1 | Some n \<Rightarrow> if n = 0 then 1 else n))"

text \<open>\<^verbatim>\<open>config.layout?.fieldOrder || config.fields.map(f => f.name)\<close> (an empty array is truthy).\<close>

definition fieldOrderOf :: "FormConfig \<Rightarrow> jsstring list" where
  "fieldOrderOf cfg =
     (case layout cfg of
        None \<Rightarrow> map name (form_fields cfg)
      | Some l \<Rightarrow>
          (case fieldOrder l of None \<Rightarrow> map name (form_fields cfg) | Some order \<Rightarrow> order))"

text \<open>
  \<^verbatim>\<open>[...config.fields].sort((a, b) => aIndex - bIndex)\<close>. The comparator orders the fields by
  the key \<open>indexOf fieldOrder name\<close>, and \<^verbatim>\<open>Array.prototype.sort\<close> is stable: the result is the
  stable sort by that key, which \<open>sort_key\<close> computes.
\<close>

definition sortedFields :: "FormConfig \<Rightarrow> FormField list" where
  "sortedFields cfg =
     sort_key (\<lambda>f. indexOf (fieldOrderOf cfg) (name f)) (form_fields cfg)"

text \<open>The \<^verbatim>\<open>forEach\<close> that pushes the field at \<open>index\<close> onto \<^verbatim>\<open>columnGroups[index % columns]\<close>.\<close>

fun pushFields :: "nat \<Rightarrow> nat \<Rightarrow> 'a list \<Rightarrow> 'a list list \<Rightarrow> 'a list list" where
  "pushFields cols index [] columnGroups = columnGroups"
| "pushFields cols index (field # rest) columnGroups =
     pushFields cols (Suc index) rest
       (columnGroups[index mod cols := columnGroups ! (index mod cols) @ [field]])"

definition getFieldLayout :: "FormConfig \<Rightarrow> FormField list list" where
  "getFieldLayout cfg =
     pushFields (columnsOf cfg) 0 (sortedFields cfg) (replicate (columnsOf cfg) [])"

section \<open>The Submission Endpoint (src/routes/api/submit/+server.ts)\<close>

text \<open>A parsed JSON document; numbers are carried but never inspected.\<close>

datatype json =
    JNull
  | JBool bool
  | JNum int
  | JStr jsstring
  | JArr "json list"
  | JObj "(jsstring \<times> json) list"

text \<open>The value of \<^verbatim>\<open>FormSubmissionSchema.parse\<close> (src/lib/types.ts).\<close>

record FormSubmission =
  sub_form_id :: jsstring
  sub_org_code :: jsstring
  sub_data :: "(jsstring \<times> json) list"
  sub_session_id :: "jsstring option"
  sub_user_agent :: "jsstring option"
  sub_referrer :: "jsstring option"

text \<open>\<^verbatim>\<open>z.string().optional()\<close> on a key of the body: absent, a string, or an issue (\<open>None\<close>).\<close>

definition optionalString :: "(jsstring \<times> json) list \<Rightarrow> jsstring \<Rightarrow> jsstring option option" where
  "optionalString obj key =
     (case map_of obj key of
        None \<Rightarrow> Some None
      | Some (JStr s) \<Rightarrow> Some (Some s)
      | Some other \<Rightarrow> None)"

text \<open>A thrown value as the catch block reads it: \<^verbatim>\<open>name\<close>, \<^verbatim>\<open>message\<close> and \<^verbatim>\<open>code\<close>.\<close>

record Thrown =
  err_name :: jsstring
  err_message :: "jsstring option"
  err_code :: "jsstring option"

definition zodError :: Thrown where
  "zodError = \<lparr>err_name = js ''ZodError'', err_message = Some (js ''Invalid input''),
                err_code = None\<rparr>"

text \<open>
  The schema's \<^verbatim>\<open>data: z.record(z.any())\<close> under Zod 4.3.6, the version the repository's
  README gives. There \<^verbatim>\<open>z.record\<close> takes a key schema and a value schema; given one
  argument, the record has no value schema, and parsing an entry of the object reads a
  property of \<^verbatim>\<open>undefined\<close>: a TypeError, thrown out of \<^verbatim>\<open>parse\<close>. The key
  \<^verbatim>\<open>__proto__\<close> is skipped before that, and an object with no other entry parses.
\<close>

definition recordTypeError :: Thrown where
  "recordTypeError =
     \<lparr>err_name = js ''TypeError'',
      err_message = Some (js ''Cannot read properties of undefined (reading '' @ [0x27]
                           @ js ''_zod'' @ [0x27] @ js '')''),
      err_code = None\<rparr>"

definition recordThrows :: "(jsstring \<times> json) list \<Rightarrow> bool" where
  "recordThrows obj =
     (case map_of obj (js ''data'') of
        Some (JObj d) \<Rightarrow> filter (\<lambda>entry. fst entry \<noteq> js ''__proto__'') d \<noteq> []
      | other \<Rightarrow> False)"

text \<open>
  \<^verbatim>\<open>FormSubmissionSchema.parse(body)\<close>: the parsed submission, or what it throws. The body
  must be an object whose \<^verbatim>\<open>form_id\<close> is a string, whose \<^verbatim>\<open>org_code\<close> is a string of
  length 6, whose \<^verbatim>\<open>data\<close> is an object, and whose \<^verbatim>\<open>session_id\<close>, \<^verbatim>\<open>user_agent\<close> and
  \<^verbatim>\<open>referrer\<close> are strings where present; otherwise it throws a ZodError. The schema runs
  on every key of its shape before it reports, so the TypeError of a \<^verbatim>\<open>data\<close> object with
  an entry comes whatever the other keys hold. The record parsed from an object without
  entries is empty.
\<close>

definition FormSubmissionSchema_parse :: "json \<Rightarrow> Thrown + FormSubmission" where
  "FormSubmissionSchema_parse body =
     (case body of
        JObj obj \<Rightarrow>
          if recordThrows obj then Inl recordTypeError
          else
            (case (map_of obj (js ''form_id''), map_of obj (js ''org_code''),
                   map_of obj (js ''data''), optionalString obj (js ''session_id''),
                   optionalString obj (js ''user_agent''), optionalString obj (js ''referrer'')) of
               (Some (JStr f), Some (JStr c), Some (JObj d), Some sid, Some ua, Some rf) \<Rightarrow>
                 if length c = 6
                 then Inr \<lparr>sub_form_id = f, sub_org_code = c, sub_data = [],
                        sub_session_id = sid, sub_user_agent = ua, sub_referrer = rf\<rparr>
                 else Inl zodError
             | other \<Rightarrow> Inl zodError)
      | other \<Rightarrow> Inl zodError)"

text \<open>
  The hosted database as the handler meets it. \<open>selectForm\<close> is
  \<^verbatim>\<open>getFormByOrgCode\<close>: it throws, or returns \<^verbatim>\<open>data\<close> and \<^verbatim>\<open>error\<close> (\<open>True\<close> when an error
  is set). \<open>insertSession\<close> and \<open>insertAnalytics\<close> are \<^verbatim>\<open>createFormSession\<close> and
  \<^verbatim>\<open>trackAnalyticsEvent\<close>, whose results the handler drops: only whether they throw counts.
\<close>

record SessionRow =
  ses_org_id :: jsstring
  ses_form_id :: jsstring
  ses_session_id :: jsstring
  ses_user_agent :: "jsstring option"
  ses_referrer :: "jsstring option"

record AnalyticsRow =
  ev_org_id :: jsstring
  ev_form_id :: jsstring
  ev_data :: "(jsstring \<times> json) list"
  ev_session_id :: "jsstring option"
  ev_user_agent :: "jsstring option"

record Supabase =
  selectForm :: "jsstring \<Rightarrow> Thrown + FormConfig option \<times> bool"
  insertSession :: "SessionRow \<Rightarrow> Thrown option"
  insertAnalytics :: "AnalyticsRow \<Rightarrow> Thrown option"

text \<open>The clock and the random draw behind the submission identifier and its timestamp.\<close>

record Clock =
  clock_now :: nat
  random_suffix :: jsstring
  iso_now :: jsstring

record SubmissionReceipt =
  submission_id :: jsstring
  receipt_org_id :: jsstring
  receipt_form_id :: jsstring
  submitted_at :: jsstring

record Response =
  status :: nat
  success :: bool
  res_error :: "jsstring option"
  res_code :: "jsstring option"
  res_message :: "jsstring option"
  res_data :: "SubmissionReceipt option"

text \<open>handleApiError (src/lib/utils.ts): the message and code of the FormError it builds.\<close>

definition handleApiError :: "Thrown \<Rightarrow> jsstring \<times> jsstring option" where
  "handleApiError e =
     (if err_code e = Some (js ''PGRST116'') then (js ''Form not found'', Some (js ''FORM_NOT_FOUND''))
      else
        (case err_message e of
           None \<Rightarrow> (js ''An unexpected error occurred'', Some (js ''UNKNOWN_ERROR''))
         | Some m \<Rightarrow>
             if m = [] then (js ''An unexpected error occurred'', Some (js ''UNKNOWN_ERROR''))
             else (m, err_code e)))"

definition rejection :: "nat \<Rightarrow> jsstring \<Rightarrow> jsstring option \<Rightarrow> Response" where
  "rejection st msg code =
     \<lparr>status = st, success = False, res_error = Some msg, res_code = code,
      res_message = None, res_data = None\<rparr>"

text \<open>The catch block of POST.\<close>

definition onError :: "Thrown \<Rightarrow> Response" where
  "onError e =
     (if err_name e = js ''ZodError'' then rejection 400 (js ''Invalid submission data'') None
      else rejection 500 (fst (handleApiError e)) (snd (handleApiError e)))"

text \<open>
  \<^verbatim>\<open>if (submission.session_id) await createFormSession({...})\<close>: what the call throws, if
  it is made and throws.
\<close>

definition recordSession :: "Supabase \<Rightarrow> FormConfig \<Rightarrow> FormSubmission \<Rightarrow> Thrown option" where
  "recordSession db stored submission =
     (case sub_session_id submission of
        None \<Rightarrow> None
      | Some sid \<Rightarrow>
          if sid = [] then None
          else insertSession db
                 \<lparr>ses_org_id = org_id stored, ses_form_id = config_id stored,
                  ses_session_id = sid, ses_user_agent = sub_user_agent submission,
                  ses_referrer = sub_referrer submission\<rparr>)"

text \<open>The argument of \<^verbatim>\<open>trackAnalyticsEvent\<close>.\<close>

definition submitEvent :: "FormConfig \<Rightarrow> FormSubmission \<Rightarrow> AnalyticsRow" where
  "submitEvent stored submission =
     \<lparr>ev_org_id = org_id stored, ev_form_id = config_id stored,
      ev_data = sub_data submission, ev_session_id = sub_session_id submission,
      ev_user_agent = sub_user_agent submission\<rparr>"

text \<open>\<^verbatim>\<open>`sub_${Date.now()}_${Math.random().toString(36).substr(2, 9)}`\<close>\<close>

definition submissionId :: "Clock \<Rightarrow> jsstring" where
  "submissionId clock = js ''sub_'' @ digits (clock_now clock) @ js ''_'' @ random_suffix clock"

definition accepted :: "Clock \<Rightarrow> FormConfig \<Rightarrow> Response" where
  "accepted clock stored =
     \<lparr>status = 200, success = True, res_error = None, res_code = None,
      res_message = Some (js ''Form submitted successfully''),
      res_data = Some \<lparr>submission_id = submissionId clock, receipt_org_id = org_id stored,
                       receipt_form_id = config_id stored, submitted_at = iso_now clock\<rparr>\<rparr>"

text \<open>
  POST. \<open>requestJson\<close> is what \<^verbatim>\<open>await request.json()\<close> gives: the parsed body, or the
  error it throws when the body is not JSON. Every throw inside the handler lands in its
  catch block, \<open>onError\<close>.
\<close>

definition POST :: "Supabase \<Rightarrow> Clock \<Rightarrow> Thrown + json \<Rightarrow> Response" where
  "POST db clock requestJson =
     (case requestJson of
        Inl e \<Rightarrow> onError e
      | Inr body \<Rightarrow>
          (case FormSubmissionSchema_parse body of
             Inl e \<Rightarrow> onError e
           | Inr submission \<Rightarrow>
               (case selectForm db (sub_org_code submission) of
                  Inl e \<Rightarrow> onError e
                | Inr found \<Rightarrow>
                    (case fst found of
                       None \<Rightarrow>
                         rejection 404 (js ''Invalid organization code or form not found'') None
                     | Some stored \<Rightarrow>
                         if snd found
                         then rejection 404 (js ''Invalid organization code or form not found'') None
                         else if config_id stored \<noteq> sub_form_id submission
                         then rejection 400 (js ''Form ID mismatch'') None
                         else
                           (case recordSession db stored submission of
                              Some e \<Rightarrow> onError e
                            | None \<Rightarrow>
                                (case insertAnalytics db (submitEvent stored submission) of
                                   Some e \<Rightarrow> onError e
                                 | None \<Rightarrow> accepted clock stored))))))"

section \<open>Predicates of the properties\<close>

text \<open>The field's pattern, if it has one, is one that \<^verbatim>\<open>new RegExp\<close> accepts.\<close>

definition compiles :: "regexp_engine \<Rightarrow> FormField \<Rightarrow> bool" where
  "compiles RegExp field =
     (case patternOf field of None \<Rightarrow> True | Some p \<Rightarrow> RegExp p \<noteq> None)"

text \<open>
  A field on which the two validators have the same work to do: it has no pattern, and
  its value does not violate both length bounds at once.
\<close>

definition plainField :: "(jsstring \<rightharpoonup> jsval) \<Rightarrow> FormField \<Rightarrow> bool" where
  "plainField d field =
     (patternOf field = None \<and>
      (tooShort field (toString (getProp d (name field))) = None \<or>
       tooLong field (toString (getProp d (name field))) = None))"

text \<open>Two form states agree on every field but \<open>errors\<close>.\<close>

definition sameButErrors :: "FormState \<Rightarrow> FormState \<Rightarrow> bool" where
  "sameButErrors s s' =
     (config s' = config s \<and> data s' = data s \<and> isSubmitting s' = isSubmitting s \<and>
      isSubmitted s' = isSubmitted s \<and> sessionId s' = sessionId s \<and> lastSaved s' = lastSaved s)"

text \<open>Two worlds agree on everything outside the \<^verbatim>\<open>formState\<close> store.\<close>

definition sameOutsideFormState :: "World \<Rightarrow> World \<Rightarrow> bool" where
  "sameOutsideFormState w w' =
     (formConfig w' = formConfig w \<and> lastAutoSave w' = lastAutoSave w \<and>
      browser w' = browser w \<and> localStorage w' = localStorage w)"

section \<open>Sample inputs\<close>

definition textField :: "string \<Rightarrow> string \<Rightarrow> bool \<Rightarrow> FormField" where
  "textField n l r =
     \<lparr>field_id = js n, name = js n, label = js l, ftype = Text, required = r,
      placeholder = None, options = None, validation = None\<rparr>"

definition nameField :: FormField where
  "nameField = textField ''name'' ''Name'' True"

definition zipField :: FormField where
  "zipField = (textField ''zip'' ''Zip'' False)
     \<lparr>validation := Some \<lparr>v_min = None, v_max = None, v_pattern = Some (js ''^[0-9]+$'')\<rparr>\<rparr>"

definition emailField :: FormField where
  "emailField = (textField ''email'' ''Email'' False)\<lparr>ftype := Email\<rparr>"

text \<open>An engine that compiles the one pattern of \<open>zipField\<close>: one or more digits.\<close>

definition sampleRegExp :: regexp_engine where
  "sampleRegExp p =
     (if p = js ''^[0-9]+$'' then Some (\<lambda>s. s \<noteq> [] \<and> list_all is_digit s) else None)"

definition sampleConfig :: "FormField list \<Rightarrow> FormConfig" where
  "sampleConfig fs =
     \<lparr>config_id = js ''f1'', org_id = js ''org1'', org_code = js ''ABC123'', form_fields = fs,
      layout = None,
      settings = Some \<lparr>show_progress = None, auto_save = Some True,
                       confirmation_message = None, redirect_url = None\<rparr>\<rparr>"

text \<open>A browser tab after \<open>initialize\<close> at time 1000, holding a saved snapshot.\<close>

definition sampleWorld :: "FormConfig \<Rightarrow> (jsstring \<rightharpoonup> jsval) \<Rightarrow> World" where
  "sampleWorld cfg d =
     \<lparr>formState = \<lparr>config = Some cfg, data = d, errors = Map.empty, isSubmitting = False,
                   isSubmitted = False, sessionId = generateSessionId 1000 (js ''k3j9x2m1q''),
                   lastSaved = None\<rparr>,
      formConfig = Some cfg, lastAutoSave = None, browser = True,
      localStorage = [storageKey (config_id cfg) \<mapsto> js ''{}'']\<rparr>"

definition sampleRuntime :: Runtime where
  "sampleRuntime =
     \<lparr>JSON_stringify = (\<lambda>d. js ''{}''), JSON_parse = (\<lambda>s. None),
      setItem_ok = (\<lambda>m k v. True)\<rparr>"

definition zipWorld :: World where
  "zipWorld = sampleWorld (sampleConfig [zipField]) [js ''zip'' \<mapsto> Str (js ''abc'')]"

section \<open>Auxiliary notions\<close>

text \<open>The positions below \<open>n\<close> that leave remainder \<open>j\<close> modulo \<open>c\<close>, in increasing order.\<close>

definition residue :: "nat \<Rightarrow> nat \<Rightarrow> nat \<Rightarrow> nat list" where
  "residue c j n = filter (\<lambda>i. i mod c = j) [0..<n]"

text \<open>
  The language of a regular expression, stated without reference to the matcher:
  \<open>repeats A\<close> holds the concatenations of finitely many strings of \<open>A\<close>.
\<close>

inductive_set repeats :: "'a list set \<Rightarrow> 'a list set" for A :: "'a list set" where
  none: "[] \<in> repeats A"
| more: "u \<in> A \<Longrightarrow> v \<in> repeats A \<Longrightarrow> u @ v \<in> repeats A"

fun lang :: "rexp \<Rightarrow> jsstring set" where
  "lang Zero = {}"
| "lang One = {[]}"
| "lang (Cls p) = {s. \<exists>c. s = [c] \<and> p c}"
| "lang (Alt r s) = lang r \<union> lang s"
| "lang (Seq r s) = {w. \<exists>u v. w = u @ v \<and> u \<in> lang r \<and> v \<in> lang s}"
| "lang (Star r) = repeats (lang r)"

text \<open>Seven fields named a to g, laid out in three columns in their own order.\<close>

definition sevenFields :: "FormField list" where
  "sevenFields = map (\<lambda>c. textField [c] [c] False) ''abcdefg''"

definition sevenInThree :: FormConfig where
  "sevenInThree =
     (sampleConfig sevenFields)\<lparr>layout := Some \<lparr>columns = Some 3, fieldOrder = None\<rparr>\<rparr>"

text \<open>A composer whose one field, the required \<^verbatim>\<open>name\<close>, holds the empty string.\<close>

definition unfilledComposer :: Composer where
  "unfilledComposer =
     \<lparr>formData = [js ''name'' \<mapsto> Str []], c_errors = Map.empty, c_isSubmitting = False\<rparr>"

definition samplePage :: Page where
  "samplePage = \<lparr>userAgent = js ''agent'', referrer = []\<rparr>"

text \<open>
  The endpoint's samples: a database that stores one form, with id \<^verbatim>\<open>f1\<close> and code
  \<^verbatim>\<open>ABC123\<close>; request bodies; and the error of a body that is not JSON.
\<close>

definition storedForm :: FormConfig where
  "storedForm = sampleConfig [nameField]"

definition sampleDb :: Supabase where
  "sampleDb =
     \<lparr>selectForm = (\<lambda>code. if code = js ''ABC123'' then Inr (Some storedForm, False)
                             else Inr (None, True)),
      insertSession = (\<lambda>row. None),
      insertAnalytics = (\<lambda>row. None)\<rparr>"

definition sampleClock :: Clock where
  "sampleClock =
     \<lparr>clock_now = 1700000000000, random_suffix = js ''x7k2p9q1z'',
      iso_now = js ''2023-11-14T22:13:20.000Z''\<rparr>"

definition bodyFor :: "string \<Rightarrow> string \<Rightarrow> json" where
  "bodyFor f c =
     JObj [(js ''form_id'', JStr (js f)), (js ''org_code'', JStr (js c)),
           (js ''data'', JObj [(js ''name'', JStr (js ''Jane''))])]"

definition emptyBodyFor :: "string \<Rightarrow> string \<Rightarrow> json" where
  "emptyBodyFor f c =
     JObj [(js ''form_id'', JStr (js f)), (js ''org_code'', JStr (js c)), (js ''data'', JObj [])]"

definition notJson :: Thrown where
  "notJson = \<lparr>err_name = js ''SyntaxError'', err_message = Some (js ''Unexpected token''),
               err_code = None\<rparr>"

text \<open>A tab whose \<^verbatim>\<open>formConfig\<close> store is empty.\<close>

definition emptyWorld :: World where
  "emptyWorld = (sampleWorld (sampleConfig [nameField]) Map.empty)\<lparr>formConfig := None\<rparr>"

section \<open>Facts about strings and regular expressions\<close>

lemma js_simps: "js [] = []" "js (c # cs) = of_char c # js cs"
  by (simp_all add: js_def)

section \<open>The error-map mutators\<close>

text \<open>
  C9. For every state, field name and message, setFieldError, clearFieldError and
  clearErrors leave \<open>data\<close>, \<open>config\<close>, \<open>sessionId\<close>, \<open>isSubmitting\<close>, \<open>isSubmitted\<close> and
  \<open>lastSaved\<close> as they were: only the \<open>errors\<close> map changes (and nothing outside the
  \<^verbatim>\<open>formState\<close> store does).
\<close>

theorem error_mutators_frame:
  "sameButErrors (formState w) (formState (setFieldError fieldName msg w)) \<and>
   sameOutsideFormState w (setFieldError fieldName msg w) \<and>
   sameButErrors (formState w) (formState (clearFieldError fieldName w)) \<and>
   sameOutsideFormState w (clearFieldError fieldName w) \<and>
   sameButErrors (formState w) (formState (clearErrors w)) \<and>
   sameOutsideFormState w (clearErrors w)"
  by (simp add: sameButErrors_def sameOutsideFormState_def setFieldError_def
      clearFieldError_def clearErrors_def)

section \<open>updateField\<close>

lemma formState_updateField:
  "formState (updateField rt t fieldName v w) =
     (formState w)\<lparr>data := (data (formState w))(fieldName \<mapsto> v),
                    errors := (errors (formState w))(fieldName := None)\<rparr>"
  by (simp add: updateField_def Let_def storage_set_def split: option.splits)

lemma formState_updateField_cong:
  "formState w = formState w' \<Longrightarrow>
   formState (updateField rt t fieldName v w) = formState (updateField rt t' fieldName v w')"
  by (simp add: formState_updateField)

lemma updateField_repeat:
  "formState (foldl (\<lambda>w t. updateField rt t fieldName v w) (updateField rt t0 fieldName v w) ts) =
   formState (updateField rt t0 fieldName v w)"
proof (induction ts rule: rev_induct)
  case Nil
  show ?case by simp
next
  case (snoc t ts)
  have "formState (updateField rt t fieldName v
           (foldl (\<lambda>w t. updateField rt t fieldName v w) (updateField rt t0 fieldName v w) ts)) =
        formState (updateField rt t fieldName v (updateField rt t0 fieldName v w))"
    by (rule formState_updateField_cong) (rule snoc.IH)
  then show ?case by (simp add: formState_updateField)
qed

text \<open>
  C8. updateField is idempotent: whatever the starting state, field name and value, the
  FormState after N consecutive identical calls (made at the times \<open>ts\<close>, N = \<open>length ts\<close>,
  N at least 1) is the FormState after one call.
\<close>

theorem updateField_idempotent:
  assumes "ts \<noteq> []"
  shows "formState (foldl (\<lambda>w t. updateField rt t fieldName v w) w ts) =
         formState (updateField rt t0 fieldName v w)"
proof -
  from assms obtain t ts' where ts: "ts = t # ts'" by (cases ts) auto
  have "formState (foldl (\<lambda>w t. updateField rt t fieldName v w) w ts) =
        formState (updateField rt t fieldName v w)"
    unfolding ts by (simp add: updateField_repeat)
  also have "\<dots> = formState (updateField rt t0 fieldName v w)"
    by (rule formState_updateField_cong) simp
  finally show ?thesis .
qed

theorem updateField_idempotent_witness:
  "[1, 2, 3 :: nat] \<noteq> [] \<and>
   formState (foldl (\<lambda>w t. updateField sampleRuntime t (js ''name'') (Str (js ''Jane'')) w)
                (sampleWorld (sampleConfig [nameField]) Map.empty) [1, 2, 3]) =
   formState (updateField sampleRuntime 0 (js ''name'') (Str (js ''Jane''))
                (sampleWorld (sampleConfig [nameField]) Map.empty))"
  using updateField_idempotent [of "[1, 2, 3]" sampleRuntime "js ''name''" "Str (js ''Jane'')"
      "sampleWorld (sampleConfig [nameField]) Map.empty" 0]
  by simp

section \<open>setSubmitted\<close>

text \<open>
  C2. The claim: with an active config, setSubmitted sets \<open>isSubmitted\<close>, removes the
  persisted entry \<^verbatim>\<open>form_<configId>_data\<close> and does not throw. The code sets the flag; in
  the browser it then throws a ReferenceError, and in no case does it touch localStorage.
\<close>

theorem setSubmitted_throws:
  "setSubmitted w =
     (if browser w then Some ReferenceError else None,
      w\<lparr>formState := (formState w)\<lparr>isSubmitted := True\<rparr>\<rparr>) \<and>
   localStorage (snd (setSubmitted w)) = localStorage w"
  by (simp add: setSubmitted_def Let_def)

section \<open>validate and validateField\<close>

text \<open>
  C1. The claim: the store's validate installs the error map and returns the flag that
  validateField gives field by field, the pattern check included. On a text field with
  a pattern and the value \<^verbatim>\<open>"abc"\<close>, validate reports no error and returns true, while
  validateField rejects the value as \<^verbatim>\<open>Invalid format\<close>.
\<close>

theorem validate_skips_pattern:
  "fst (validate zipWorld) = True \<and>
   errors (formState (snd (validate zipWorld))) = Map.empty \<and>
   validateField sampleRegExp zipField (getProp (data (formState zipWorld)) (name zipField)) =
     Inr (failed (js ''Invalid format''))"
  by (simp add: validate_def zipWorld_def sampleWorld_def sampleConfig_def zipField_def
      textField_def validateStep_def validateTextStep_def getProp_def blank_def js_simps
      tooShort_def tooLong_def validateField_def validateText_def patternOf_def sampleRegExp_def
      is_digit_def trim_def is_space_def Let_def)

section \<open>The decimal rendering is injective\<close>

lemma unat_digit: "d < 10 \<Longrightarrow> unat (digit d) = 48 + d"
  unfolding digit_def unat_of_nat by simp

lemma digit_inj: "d < 10 \<Longrightarrow> e < 10 \<Longrightarrow> digit d = digit e \<Longrightarrow> d = e"
  by (metis unat_digit add_left_cancel)

lemma is_digit_digit: "d < 10 \<Longrightarrow> is_digit (digit d)"
  using unat_digit [of d] by (simp add: is_digit_def word_le_nat_alt)

lemma digits_ne: "digits n \<noteq> []"
  by (subst digits.simps) simp

lemma digits_all: "list_all is_digit (digits n)"
proof (induction n rule: digits.induct)
  case (1 n)
  show ?case
  proof (cases "n < 10")
    case True
    then show ?thesis by (subst digits.simps) (simp add: is_digit_digit)
  next
    case False
    then show ?thesis
      using "1.IH" by (subst digits.simps) (simp add: is_digit_digit)
  qed
qed

lemma digits_inj: "digits a = digits b \<Longrightarrow> a = b"
proof (induction a arbitrary: b rule: digits.induct)
  case (1 n)
  have dn: "digits n = (if n < 10 then [digit n] else digits (n div 10) @ [digit (n mod 10)])"
    by (subst digits.simps) simp
  have db: "digits b = (if b < 10 then [digit b] else digits (b div 10) @ [digit (b mod 10)])"
    by (subst digits.simps) simp
  show ?case
  proof (cases "n < 10")
    case True
    show ?thesis
    proof (cases "b < 10")
      case b: True
      with True "1.prems" dn db show ?thesis by (simp add: digit_inj)
    next
      case b: False
      with True "1.prems" dn db have "[digit n] = digits (b div 10) @ [digit (b mod 10)]"
        by simp
      then have "digits (b div 10) = []" by (simp add: Cons_eq_append_conv)
      then show ?thesis by (simp add: digits_ne)
    qed
  next
    case False
    show ?thesis
    proof (cases "b < 10")
      case b: True
      with False "1.prems" dn db have "digits (n div 10) @ [digit (n mod 10)] = [digit b]"
        by simp
      then have "digits (n div 10) = []" by (simp add: append_eq_Cons_conv)
      then show ?thesis by (simp add: digits_ne)
    next
      case b: False
      with False "1.prems" dn db
      have eq: "digits (n div 10) = digits (b div 10)" "digit (n mod 10) = digit (b mod 10)"
        by simp_all
      from eq(1) have "n div 10 = b div 10" using "1.IH" [OF False] by simp
      moreover from eq(2) have "n mod 10 = b mod 10" by (simp add: digit_inj)
      ultimately show ?thesis by (metis div_mult_mod_eq)
    qed
  qed
qed

lemma split_at_separator:
  "s \<notin> set xs \<Longrightarrow> s \<notin> set ys \<Longrightarrow> xs @ s # r = ys @ s # r' \<Longrightarrow> xs = ys \<and> r = r'"
proof (induction xs arbitrary: ys)
  case Nil
  then show ?case by (cases ys) auto
next
  case (Cons x xs)
  then show ?case by (cases ys) auto
qed

lemma underscore_no_digit: "(0x5F :: jschar) \<notin> set (digits n)"
proof
  assume "(0x5F :: jschar) \<in> set (digits n)"
  then have "is_digit 0x5F" using digits_all [of n] by (simp add: list_all_iff)
  then show False by (simp add: is_digit_def)
qed

text \<open>Two session identifiers are equal only if the clock reading and the random suffix are.\<close>

lemma generateSessionId_inj:
  assumes "generateSessionId a r = generateSessionId b r'"
  shows "a = b \<and> r = r'"
proof -
  from assms have "digits a @ 0x5F # r = digits b @ 0x5F # r'"
    by (simp add: generateSessionId_def js_simps)
  then have "digits a = digits b \<and> r = r'"
    by (rule split_at_separator [OF underscore_no_digit underscore_no_digit])
  then show ?thesis by (simp add: digits_inj)
qed

section \<open>reset\<close>

text \<open>
  C5, as amended. With a config in the \<^verbatim>\<open>formConfig\<close> store, reset yields \<open>data = {}\<close>,
  \<open>errors = {}\<close> and the session identifier generated from the current clock reading and
  random draw; that identifier differs from the previous one whenever the previous one
  was generated from another clock reading or another random suffix; and in the browser
  the entry \<^verbatim>\<open>form_<configId>_data\<close> is gone from localStorage. With no config in the
  store, reset changes nothing.
\<close>

theorem reset_effect:
  "(formConfig w = Some cfg \<longrightarrow>
      data (formState (reset now rnd w)) = Map.empty \<and>
      errors (formState (reset now rnd w)) = Map.empty \<and>
      sessionId (formState (reset now rnd w)) = generateSessionId now rnd \<and>
      (sessionId (formState w) = generateSessionId now0 rnd0 \<and> (now0 \<noteq> now \<or> rnd0 \<noteq> rnd) \<longrightarrow>
         sessionId (formState (reset now rnd w)) \<noteq> sessionId (formState w)) \<and>
      (browser w \<longrightarrow> localStorage (reset now rnd w) (storageKey (config_id cfg)) = None)) \<and>
   (formConfig w = None \<longrightarrow> reset now rnd w = w)"
proof -
  have "generateSessionId now rnd \<noteq> generateSessionId now0 rnd0"
    if "now0 \<noteq> now \<or> rnd0 \<noteq> rnd"
    using that generateSessionId_inj [of now rnd now0 rnd0] by auto
  then have neq: "sessionId (formState w) = generateSessionId now0 rnd0 \<Longrightarrow>
      now0 \<noteq> now \<or> rnd0 \<noteq> rnd \<Longrightarrow> generateSessionId now rnd \<noteq> sessionId (formState w)"
    by simp
  have some: "formState (reset now rnd w) =
        (formState w)\<lparr>data := Map.empty, errors := Map.empty, isSubmitted := False,
                       sessionId := generateSessionId now rnd\<rparr>"
    if "formConfig w = Some cfg"
    using that by (simp add: reset_def Let_def storage_remove_def)
  have rm: "localStorage (reset now rnd w) (storageKey (config_id cfg)) = None"
    if "formConfig w = Some cfg" "browser w"
    using that by (simp add: reset_def Let_def storage_remove_def)
  have none: "reset now rnd w = w" if "formConfig w = None"
    using that by (simp add: reset_def)
  show ?thesis
    using neq some rm none by (cases "formConfig w") simp_all
qed

theorem reset_effect_witness:
  "formConfig (sampleWorld (sampleConfig [nameField]) Map.empty) = Some (sampleConfig [nameField]) \<and>
   data (formState (reset 2000 (js ''zzz'') (sampleWorld (sampleConfig [nameField]) Map.empty))) = Map.empty \<and>
   errors (formState (reset 2000 (js ''zzz'') (sampleWorld (sampleConfig [nameField]) Map.empty))) = Map.empty \<and>
   sessionId (formState (sampleWorld (sampleConfig [nameField]) Map.empty)) =
     generateSessionId 1000 (js ''k3j9x2m1q'') \<and>
   sessionId (formState (reset 2000 (js ''zzz'') (sampleWorld (sampleConfig [nameField]) Map.empty))) \<noteq>
     sessionId (formState (sampleWorld (sampleConfig [nameField]) Map.empty)) \<and>
   browser (sampleWorld (sampleConfig [nameField]) Map.empty) \<and>
   localStorage (reset 2000 (js ''zzz'') (sampleWorld (sampleConfig [nameField]) Map.empty))
     (storageKey (config_id (sampleConfig [nameField]))) = None \<and>
   formConfig emptyWorld = None \<and> reset 2000 (js ''zzz'') emptyWorld = emptyWorld"
proof -
  let ?w = "sampleWorld (sampleConfig [nameField]) Map.empty"
  have c: "formConfig ?w = Some (sampleConfig [nameField])" by (simp add: sampleWorld_def)
  have s: "sessionId (formState ?w) = generateSessionId 1000 (js ''k3j9x2m1q'')"
    by (simp add: sampleWorld_def)
  have t: "(1000 :: nat) \<noteq> 2000 \<or> js ''k3j9x2m1q'' \<noteq> js ''zzz''" by simp
  have b: "browser ?w" by (simp add: sampleWorld_def)
  have e: "formConfig emptyWorld = None" by (simp add: emptyWorld_def)
  show ?thesis
    using reset_effect [of ?w "sampleConfig [nameField]" 2000 "js ''zzz''" 1000 "js ''k3j9x2m1q''"]
      reset_effect [of emptyWorld "sampleConfig [nameField]" 2000 "js ''zzz''" 1000 "js ''k3j9x2m1q''"]
      c s t b e
    by blast
qed

text \<open>
  The claim as stated asks for a session identifier different from the previous one. A
  reset at the clock reading and with the random suffix of the previous identifier
  yields the same identifier again.
\<close>

theorem reset_same_sessionId:
  "formConfig (sampleWorld (sampleConfig [nameField]) Map.empty) = Some (sampleConfig [nameField]) \<and>
   sessionId (formState (reset 1000 (js ''k3j9x2m1q'') (sampleWorld (sampleConfig [nameField]) Map.empty))) =
   sessionId (formState (sampleWorld (sampleConfig [nameField]) Map.empty))"
  by (simp add: reset_def sampleWorld_def Let_def storage_remove_def)

section \<open>Email validation\<close>

lemma repeats_Cons:
  "c # s \<in> repeats A \<longleftrightarrow> (\<exists>u v. s = u @ v \<and> c # u \<in> A \<and> v \<in> repeats A)"
proof
  assume "c # s \<in> repeats A"
  then show "\<exists>u v. s = u @ v \<and> c # u \<in> A \<and> v \<in> repeats A"
  proof (induction "c # s" arbitrary: s rule: repeats.induct)
    case (more u v)
    show ?case
    proof (cases u)
      case Nil
      with more show ?thesis by simp
    next
      case (Cons a u')
      with more.hyps more.prems show ?thesis by auto
    qed
  qed
next
  assume "\<exists>u v. s = u @ v \<and> c # u \<in> A \<and> v \<in> repeats A"
  then obtain u v where "s = u @ v" "c # u \<in> A" "v \<in> repeats A" by blast
  then show "c # s \<in> repeats A"
    using repeats.more [of "c # u" A v] by simp
qed

lemma nullable_lang: "nullable r \<longleftrightarrow> [] \<in> lang r"
  by (induction r) (auto intro: repeats.none)

lemma deriv_lang: "s \<in> lang (deriv c r) \<longleftrightarrow> c # s \<in> lang r"
proof (induction r arbitrary: s)
  case (Seq r1 r2)
  show ?case
  proof (cases "nullable r1")
    case True
    then show ?thesis
      using Seq by (auto simp add: nullable_lang Cons_eq_append_conv)
  next
    case False
    then show ?thesis
      using Seq by (auto simp add: nullable_lang Cons_eq_append_conv)
  qed
next
  case (Star r)
  then show ?case by (auto simp add: repeats_Cons)
qed auto

text \<open>The derivative matcher decides membership in the language.\<close>

lemma matches_lang: "matches r s \<longleftrightarrow> s \<in> lang r"
  by (induction s arbitrary: r) (simp_all add: nullable_lang deriv_lang)

lemma repeats_Cls: "repeats {s. \<exists>c. s = [c] \<and> P c} = {s. list_all P s}"
proof (rule set_eqI)
  fix s
  show "s \<in> repeats {s. \<exists>c. s = [c] \<and> P c} \<longleftrightarrow> s \<in> {s. list_all P s}"
  proof (induction s)
    case Nil
    show ?case by (simp add: repeats.none)
  next
    case (Cons c cs)
    then show ?case by (auto simp add: repeats_Cons)
  qed
qed

lemma lang_Plus_Cls: "lang (Plus (Cls P)) = {s. s \<noteq> [] \<and> list_all P s}"
proof (rule set_eqI)
  fix s
  show "s \<in> lang (Plus (Cls P)) \<longleftrightarrow> s \<in> {s. s \<noteq> [] \<and> list_all P s}"
  proof (cases s)
    case Nil
    then show ?thesis by (simp add: Plus_def)
  next
    case (Cons a w)
    have "a # w \<in> lang (Plus (Cls P)) \<longleftrightarrow>
        (\<exists>u v. a # w = u @ v \<and> (\<exists>c. u = [c] \<and> P c) \<and> list_all P v)"
      by (simp add: Plus_def repeats_Cls)
    also have "\<dots> \<longleftrightarrow> P a \<and> list_all P w"
    proof
      assume "\<exists>u v. a # w = u @ v \<and> (\<exists>c. u = [c] \<and> P c) \<and> list_all P v"
      then obtain c v where "a # w = [c] @ v" "P c" "list_all P v" by blast
      then show "P a \<and> list_all P w" by simp
    next
      assume "P a \<and> list_all P w"
      then have "a # w = [a] @ w \<and> (\<exists>c. [a] = [c] \<and> P c) \<and> list_all P w" by simp
      then show "\<exists>u v. a # w = u @ v \<and> (\<exists>c. u = [c] \<and> P c) \<and> list_all P v" by blast
    qed
    finally show ?thesis by (simp add: Cons)
  qed
qed

lemma lang_Chr: "lang (Chr c) = {[c]}"
  by (auto simp add: Chr_def)

text \<open>What the email expression accepts, read off the literal.\<close>

lemma emailRegex_matches:
  "matches emailRegex s \<longleftrightarrow>
     (\<exists>a b c. s = a @ 0x40 # b @ 0x2E # c \<and> a \<noteq> [] \<and> b \<noteq> [] \<and> c \<noteq> [] \<and>
        list_all notSpaceAt a \<and> list_all notSpaceAt b \<and> list_all notSpaceAt c)"
  unfolding matches_lang emailRegex_def
  by (simp add: lang_Plus_Cls lang_Chr) blast

lemma phoneRegex_matches:
  "matches phoneRegex s \<longleftrightarrow> s \<noteq> [] \<and> list_all phoneChar s"
  unfolding matches_lang phoneRegex_def by (simp add: lang_Plus_Cls)

lemma email_no_space:
  assumes "matches emailRegex s"
  shows "s \<noteq> [] \<and> list_all (\<lambda>c. \<not> is_space c) s"
proof -
  from assms obtain a b c where s: "s = a @ 0x40 # b @ 0x2E # c"
    and cls: "list_all notSpaceAt a" "list_all notSpaceAt b" "list_all notSpaceAt c"
    unfolding emailRegex_matches by blast
  have "list_all (\<lambda>c. \<not> is_space c) w" if "list_all notSpaceAt w" for w
    using that by (simp add: list_all_iff notSpaceAt_def)
  with cls show ?thesis
    by (simp add: s is_space_def)
qed

lemma dropWhile_none: "list_all (\<lambda>c. \<not> P c) s \<Longrightarrow> dropWhile P s = s"
  by (cases s) auto

lemma trim_no_space: "list_all (\<lambda>c. \<not> is_space c) s \<Longrightarrow> trim s = s"
  by (simp add: trim_def dropWhile_none)

lemma email_match_not_blank:
  assumes "matches emailRegex (toString v)"
  shows "\<not> blank v \<and> \<not> falsy v"
proof (cases v)
  case Undefined
  with assms show ?thesis
    by (simp add: emailRegex_def Plus_def Chr_def js_simps notSpaceAt_def is_space_def)
next
  case (Str s)
  with assms email_no_space [of s] show ?thesis
    by (simp add: blank_def trim_no_space)
next
  case (Bool b)
  with assms show ?thesis
    by (cases b) (simp_all add: emailRegex_def Plus_def Chr_def js_simps notSpaceAt_def is_space_def)
next
  case (Native t)
  with assms email_no_space [of t] show ?thesis
    by (simp add: blank_def trim_no_space)
qed

text \<open>
  C7, as amended. For every email-type field and every value: if the value matches the
  regular expression, validation passes. If it does not match, validation fails with
  \<^verbatim>\<open>Please enter a valid email address\<close>, with two exceptions that come first: on a
  required field an empty or whitespace-only value fails with the required message, and
  on a field that is not required an empty (falsy) value passes.
\<close>

theorem email_validation:
  assumes "ftype field = Email"
  shows "(matches emailRegex (toString v) \<longrightarrow> validateField RegExp field v = Inr passed) \<and>
         (\<not> matches emailRegex (toString v) \<longrightarrow>
            validateField RegExp field v =
              Inr (if required field \<and> blank v then failed (requiredMsg field)
                   else if falsy v then passed
                   else failed (js ''Please enter a valid email address'')))"
  using assms email_match_not_blank [of v] by (simp add: validateField_def)

theorem email_validation_witness:
  "ftype emailField = Email \<and>
   matches emailRegex (toString (Str (js ''jane@example.com''))) \<and>
   validateField sampleRegExp emailField (Str (js ''jane@example.com'')) = Inr passed \<and>
   \<not> matches emailRegex (toString (Str (js ''jane.example.com''))) \<and>
   validateField sampleRegExp emailField (Str (js ''jane.example.com'')) =
     Inr (failed (js ''Please enter a valid email address''))"
proof -
  have t: "ftype emailField = Email" by (simp add: emailField_def textField_def)
  have m1: "matches emailRegex (toString (Str (js ''jane@example.com'')))"
    by (simp add: emailRegex_def Plus_def Chr_def js_simps notSpaceAt_def is_space_def)
  have m2: "\<not> matches emailRegex (toString (Str (js ''jane.example.com'')))"
    by (simp add: emailRegex_def Plus_def Chr_def js_simps notSpaceAt_def is_space_def)
  have nr: "\<not> required emailField" by (simp add: emailField_def textField_def)
  have nf: "\<not> falsy (Str (js ''jane.example.com''))" by (simp add: js_simps)
  show ?thesis
    using email_validation [OF t, of "Str (js ''jane@example.com'')" sampleRegExp]
      email_validation [OF t, of "Str (js ''jane.example.com'')" sampleRegExp] t m1 m2 nr nf
    by simp
qed

text \<open>
  The claim as stated has every value that does not match fail. The empty string does
  not match, and on a field that is not required it passes.
\<close>

theorem email_empty_passes:
  "ftype emailField = Email \<and>
   \<not> matches emailRegex (toString (Str [])) \<and>
   validateField sampleRegExp emailField (Str []) = Inr passed"
  by (simp add: emailField_def textField_def validateField_def blank_def emailRegex_def
      Plus_def Chr_def)

section \<open>getFieldLayout\<close>

lemma residue_Suc:
  "residue c j (Suc n) = residue c j n @ (if n mod c = j then [n] else [])"
  by (simp add: residue_def)

text \<open>The loop invariant: after \<open>k\<close> fields, column \<open>j\<close> holds those at the positions of
  \<open>residue c j k\<close>.\<close>

lemma pushFields_closed:
  assumes "0 < c"
  shows "length g = c \<Longrightarrow> k + length xs = length ys \<Longrightarrow> drop k ys = xs \<Longrightarrow>
         (\<And>j. j < c \<Longrightarrow> g ! j = map (nth ys) (residue c j k)) \<Longrightarrow>
         pushFields c k xs g = map (\<lambda>j. map (nth ys) (residue c j (length ys))) [0..<c]"
proof (induction xs arbitrary: k g)
  case Nil
  then have k: "k = length ys" by simp
  show ?case
    by (rule nth_equalityI) (simp_all add: Nil.prems(1) Nil.prems(4) k)
next
  case (Cons x xs)
  let ?g = "g[k mod c := g ! (k mod c) @ [x]]"
  have klt: "k < length ys" using Cons.prems(2) by simp
  have x: "x = ys ! k"
    using Cons.prems(3) klt by (metis nth_via_drop)
  have kc: "k mod c < c" using assms by simp
  have "pushFields c (Suc k) xs ?g = map (\<lambda>j. map (nth ys) (residue c j (length ys))) [0..<c]"
  proof (rule Cons.IH)
    show "length ?g = c" using Cons.prems(1) by simp
    show "Suc k + length xs = length ys" using Cons.prems(2) by simp
    show "drop (Suc k) ys = xs"
      using Cons.prems(3) by (metis drop_Suc list.sel(3) tl_drop)
    fix j
    assume j: "j < c"
    show "?g ! j = map (nth ys) (residue c j (Suc k))"
    proof (cases "j = k mod c")
      case True
      then show ?thesis
        using Cons.prems(1) Cons.prems(4)[OF kc] kc x by (simp add: residue_Suc)
    next
      case False
      then show ?thesis
        using Cons.prems(4)[OF j] by (auto simp add: residue_Suc)
    qed
  qed
  then show ?case by simp
qed

lemma columnsOf_pos: "0 < columnsOf cfg"
  by (simp add: columnsOf_def split: option.splits)

lemma getFieldLayout_closed:
  "getFieldLayout cfg =
     map (\<lambda>j. map (nth (sortedFields cfg))
                 (filter (\<lambda>i. i mod columnsOf cfg = j) [0..<length (sortedFields cfg)]))
       [0..<columnsOf cfg]"
  unfolding getFieldLayout_def
  using pushFields_closed [OF columnsOf_pos, of "replicate (columnsOf cfg) []" cfg 0
      "sortedFields cfg" "sortedFields cfg"]
  by (simp add: residue_def)

lemma indexOf_nth:
  "distinct xs \<Longrightarrow> i < length xs \<Longrightarrow> indexOf xs (xs ! i) = int i"
proof (induction xs arbitrary: i)
  case Nil
  then show ?case by simp
next
  case (Cons y ys)
  show ?case
  proof (cases i)
    case 0
    then show ?thesis by simp
  next
    case (Suc k)
    with Cons.prems have "ys ! k \<noteq> y" "indexOf ys (ys ! k) = int k"
      using Cons.IH [of k] by auto
    with Suc show ?thesis by (simp add: Let_def)
  qed
qed

text \<open>With unique names, sorting by position in the fields' own name list changes nothing.\<close>

lemma default_order_sorted:
  assumes "distinct (map name fs)"
  shows "sort_key (\<lambda>f. indexOf (map name fs) (name f)) fs = fs"
proof (rule sort_key_id_if_sorted)
  have "map (\<lambda>f. indexOf (map name fs) (name f)) fs = map int [0..<length fs]"
    by (rule nth_equalityI) (use assms indexOf_nth [of "map name fs"] in \<open>auto\<close>)
  then show "sorted (map (\<lambda>f. indexOf (map name fs) (name f)) fs)"
    by (simp add: sorted_map strict_mono_on_def sorted_wrt_map)
qed

lemma upt7: "[0..<7] = [0, 1, 2, 3, 4, 5, 6]"
  by (simp add: upt_rec)

lemma seven_in_three:
  assumes "length fs = 7" "columnsOf cfg = 3" "sortedFields cfg = fs"
  shows "getFieldLayout cfg = [[fs ! 0, fs ! 3, fs ! 6], [fs ! 1, fs ! 4], [fs ! 2, fs ! 5]]"
  unfolding getFieldLayout_closed assms upt7
  by (simp add: upt_rec)

lemma mset_concat_push:
  "i < length g \<Longrightarrow> mset (concat (g[i := g ! i @ [x]])) = add_mset x (mset (concat g))"
proof (induction g arbitrary: i)
  case Nil
  then show ?case by simp
next
  case (Cons a g)
  then show ?case by (cases i) auto
qed

lemma mset_pushFields:
  "0 < c \<Longrightarrow> length g = c \<Longrightarrow>
   mset (concat (pushFields c k xs g)) = mset (concat g) + mset xs"
proof (induction xs arbitrary: k g)
  case Nil
  then show ?case by simp
next
  case (Cons x xs)
  have "k mod c < length g" using Cons.prems by simp
  then show ?case
    using Cons.IH [of "g[k mod c := g ! (k mod c) @ [x]]" "Suc k"] Cons.prems
    by (simp add: mset_concat_push)
qed

lemma concat_replicate_Nil: "concat (replicate n []) = []"
  by (induction n) auto

lemma mset_getFieldLayout: "mset (concat (getFieldLayout cfg)) = mset (form_fields cfg)"
  unfolding getFieldLayout_def
  using mset_pushFields [OF columnsOf_pos, of "replicate (columnsOf cfg) []" cfg 0 "sortedFields cfg"]
  by (simp add: concat_replicate_Nil sortedFields_def)

lemma length_residue:
  "0 < c \<Longrightarrow> j < c \<Longrightarrow>
   length (residue c j n) = n div c + (if j < n mod c then 1 else 0)"
proof (induction n)
  case 0
  then show ?case by (simp add: residue_def)
next
  case (Suc n)
  then show ?case
    by (auto simp add: residue_Suc mod_Suc div_Suc)
qed

lemma column_lengths:
  assumes "a < length (getFieldLayout cfg)" "b < length (getFieldLayout cfg)"
  shows "length (getFieldLayout cfg ! a) \<le> length (getFieldLayout cfg ! b) + 1"
proof -
  have len: "length (getFieldLayout cfg) = columnsOf cfg"
    by (simp add: getFieldLayout_closed)
  have col: "length (getFieldLayout cfg ! j) =
      length (residue (columnsOf cfg) j (length (sortedFields cfg)))" if "j < columnsOf cfg" for j
    using that by (simp add: getFieldLayout_closed residue_def)
  show ?thesis
    using assms unfolding len
    by (simp add: col length_residue [OF columnsOf_pos])
qed

lemma sevenInThree_facts:
  "form_fields sevenInThree = sevenFields" "length sevenFields = 7" "columnsOf sevenInThree = 3"
  "fieldOrderOf sevenInThree = map name sevenFields" "distinct (map name sevenFields)"
  by (simp_all add: sevenInThree_def sevenFields_def sampleConfig_def columnsOf_def
      fieldOrderOf_def textField_def js_simps)

lemma sevenInThree_length: "length (getFieldLayout sevenInThree) = 3"
  by (simp add: getFieldLayout_closed sevenInThree_facts)

text \<open>
  C6. For every config, the field at position \<open>i\<close> of the sorted order goes to column
  \<open>i mod columns\<close>: column \<open>j\<close> holds, in order, exactly the sorted fields whose position
  leaves remainder \<open>j\<close>. In particular, 7 fields with unique names in their default order
  and 3 columns give the columns [0,3,6], [1,4] and [2,5].
\<close>

theorem getFieldLayout_round_robin:
  "getFieldLayout cfg =
     map (\<lambda>j. map (nth (sortedFields cfg))
                 (filter (\<lambda>i. i mod columnsOf cfg = j) [0..<length (sortedFields cfg)]))
       [0..<columnsOf cfg] \<and>
   (i < length (sortedFields cfg) \<longrightarrow>
      i mod columnsOf cfg < length (getFieldLayout cfg) \<and>
      sortedFields cfg ! i \<in> set (getFieldLayout cfg ! (i mod columnsOf cfg))) \<and>
   (length (form_fields cfg) = 7 \<and> columnsOf cfg = 3 \<and>
    fieldOrderOf cfg = map name (form_fields cfg) \<and> distinct (map name (form_fields cfg)) \<longrightarrow>
      getFieldLayout cfg =
        [[form_fields cfg ! 0, form_fields cfg ! 3, form_fields cfg ! 6],
         [form_fields cfg ! 1, form_fields cfg ! 4],
         [form_fields cfg ! 2, form_fields cfg ! 5]])"
proof (intro conjI impI)
  show "getFieldLayout cfg =
     map (\<lambda>j. map (nth (sortedFields cfg))
                 (filter (\<lambda>i. i mod columnsOf cfg = j) [0..<length (sortedFields cfg)]))
       [0..<columnsOf cfg]"
    by (rule getFieldLayout_closed)
next
  assume "i < length (sortedFields cfg)"
  then show "i mod columnsOf cfg < length (getFieldLayout cfg)"
    using columnsOf_pos [of cfg] by (simp add: getFieldLayout_closed)
next
  assume i: "i < length (sortedFields cfg)"
  have "i mod columnsOf cfg < columnsOf cfg" using columnsOf_pos [of cfg] by simp
  then show "sortedFields cfg ! i \<in> set (getFieldLayout cfg ! (i mod columnsOf cfg))"
    using i by (simp add: getFieldLayout_closed)
next
  assume h: "length (form_fields cfg) = 7 \<and> columnsOf cfg = 3 \<and>
    fieldOrderOf cfg = map name (form_fields cfg) \<and> distinct (map name (form_fields cfg))"
  then have "sortedFields cfg = form_fields cfg"
    by (simp add: sortedFields_def default_order_sorted)
  with h show "getFieldLayout cfg =
        [[form_fields cfg ! 0, form_fields cfg ! 3, form_fields cfg ! 6],
         [form_fields cfg ! 1, form_fields cfg ! 4],
         [form_fields cfg ! 2, form_fields cfg ! 5]]"
    using seven_in_three [of "form_fields cfg" cfg] by blast
qed

theorem getFieldLayout_round_robin_witness:
  "length (form_fields sevenInThree) = 7 \<and> columnsOf sevenInThree = 3 \<and>
   fieldOrderOf sevenInThree = map name (form_fields sevenInThree) \<and>
   distinct (map name (form_fields sevenInThree)) \<and>
   getFieldLayout sevenInThree =
     [[sevenFields ! 0, sevenFields ! 3, sevenFields ! 6],
      [sevenFields ! 1, sevenFields ! 4],
      [sevenFields ! 2, sevenFields ! 5]]"
proof -
  have hyp: "length (form_fields sevenInThree) = 7 \<and> columnsOf sevenInThree = 3 \<and>
      fieldOrderOf sevenInThree = map name (form_fields sevenInThree) \<and>
      distinct (map name (form_fields sevenInThree))"
    by (simp add: sevenInThree_facts)
  have "getFieldLayout sevenInThree =
      [[form_fields sevenInThree ! 0, form_fields sevenInThree ! 3, form_fields sevenInThree ! 6],
       [form_fields sevenInThree ! 1, form_fields sevenInThree ! 4],
       [form_fields sevenInThree ! 2, form_fields sevenInThree ! 5]]"
    using getFieldLayout_round_robin [of sevenInThree 0] hyp by blast
  then show ?thesis using hyp by (simp add: sevenInThree_facts(1))
qed

text \<open>
  C10. For every config, the columns of getFieldLayout partition the config's fields:
  taken together they hold every field of \<open>config.fields\<close> exactly as often as the config
  does (none dropped, none duplicated), and the lengths of any two columns differ by at
  most 1.
\<close>

theorem getFieldLayout_partition:
  "mset (concat (getFieldLayout cfg)) = mset (form_fields cfg) \<and>
   (\<forall>a < length (getFieldLayout cfg). \<forall>b < length (getFieldLayout cfg).
      length (getFieldLayout cfg ! a) \<le> length (getFieldLayout cfg ! b) + 1)"
  using mset_getFieldLayout column_lengths by blast

theorem getFieldLayout_partition_witness:
  "(0 :: nat) < length (getFieldLayout sevenInThree) \<and> (2 :: nat) < length (getFieldLayout sevenInThree) \<and>
   mset (concat (getFieldLayout sevenInThree)) = mset (form_fields sevenInThree) \<and>
   length (getFieldLayout sevenInThree ! 0) \<le> length (getFieldLayout sevenInThree ! 2) + 1"
  using getFieldLayout_partition [of sevenInThree]
  by (simp add: sevenInThree_length)

section \<open>handleSubmit\<close>

lemma validateField_returns:
  "compiles RegExp field \<Longrightarrow> \<exists>res. validateField RegExp field v = Inr res"
  by (auto simp add: validateField_def validateText_def compiles_def
      split: FieldType.splits option.splits)

lemma validateField_required:
  "required field \<Longrightarrow> blank v \<Longrightarrow> validateField RegExp field v = Inr (failed (requiredMsg field))"
  by (simp add: validateField_def)

lemma failed_simps: "isValid (failed msg) = False" "error (failed msg) = Some msg"
  by (simp_all add: failed_def)

lemma requiredMsg_ne: "requiredMsg field \<noteq> []"
  by (simp add: requiredMsg_def js_simps)

lemma errorOr_required: "errorOr (failed (requiredMsg field)) field = requiredMsg field"
  by (simp add: errorOr_def failed_simps requiredMsg_ne)

lemma validateFields_frame:
  "list_all (compiles RegExp) fs \<Longrightarrow>
   \<exists>r. validateFields RegExp d fs acc = Inr r \<and> (fst acc = False \<longrightarrow> fst r = False) \<and>
       (\<forall>k. k \<notin> set (map name fs) \<longrightarrow> snd r k = snd acc k)"
proof (induction fs arbitrary: acc)
  case Nil
  show ?case by simp
next
  case (Cons g fs)
  from Cons.prems have cg: "compiles RegExp g" and cfs: "list_all (compiles RegExp) fs"
    by simp_all
  from validateField_returns [OF cg] obtain res
    where res: "validateField RegExp g (getProp d (name g)) = Inr res" by blast
  show ?case
  proof (cases "isValid res")
    case True
    with res Cons.IH [OF cfs, of acc] show ?thesis by auto
  next
    case False
    with res Cons.IH [OF cfs, of "(False, (snd acc)(name g \<mapsto> errorOr res g))"]
    show ?thesis by auto
  qed
qed

lemma validateFields_required:
  "list_all (compiles RegExp) fs \<Longrightarrow> distinct (map name fs) \<Longrightarrow> field \<in> set fs \<Longrightarrow>
   required field \<Longrightarrow> blank (getProp d (name field)) \<Longrightarrow>
   \<exists>r. validateFields RegExp d fs acc = Inr r \<and> fst r = False \<and>
       snd r (name field) = Some (requiredMsg field)"
proof (induction fs arbitrary: acc)
  case Nil
  then show ?case by simp
next
  case (Cons g fs)
  from Cons.prems have cg: "compiles RegExp g" and cfs: "list_all (compiles RegExp) fs"
    by simp_all
  show ?case
  proof (cases "g = field")
    case True
    have notin: "name field \<notin> set (map name fs)" using Cons.prems(2) True by simp
    have step: "validateFields RegExp d (g # fs) acc =
        validateFields RegExp d fs (False, (snd acc)(name field \<mapsto> requiredMsg field))"
      using True Cons.prems(4,5)
      by (simp add: validateField_required errorOr_required failed_simps)
    from validateFields_frame [OF cfs, of d "(False, (snd acc)(name field \<mapsto> requiredMsg field))"]
    obtain r where "validateFields RegExp d fs (False, (snd acc)(name field \<mapsto> requiredMsg field)) = Inr r"
      "fst r = False" "snd r (name field) = Some (requiredMsg field)"
      using notin by auto
    with step show ?thesis by simp
  next
    case False
    with Cons.prems have mem: "field \<in> set fs" and dist: "distinct (map name fs)" by simp_all
    from validateField_returns [OF cg] obtain res
      where res: "validateField RegExp g (getProp d (name g)) = Inr res" by blast
    show ?thesis
    proof (cases "isValid res")
      case True
      with res Cons.IH [OF cfs dist mem Cons.prems(4,5), of acc] show ?thesis by simp
    next
      case inv: False
      with res Cons.IH [OF cfs dist mem Cons.prems(4,5),
          of "(False, (snd acc)(name g \<mapsto> errorOr res g))"]
      show ?thesis by simp
    qed
  qed
qed

text \<open>A key that the data object lacks but its prototype has reads as a function, which
  is not blank; an ordinary missing key reads as \<^verbatim>\<open>undefined\<close>.\<close>

lemma getProp_inherited:
  "getProp Map.empty (js ''constructor'') = nativeFunction ''Object''"
  "\<not> blank (getProp Map.empty (js ''constructor''))"
  "getProp Map.empty (js ''name'') = Undefined"
  by (simp_all add: getProp_def objectPrototype_def nativeFunction_def blank_def trim_def
      is_space_def js_simps)

text \<open>Every submit that the handler accepts and validates ends in the TypeError, with the
  new errors assigned to the component and nothing done to the outside.\<close>

lemma handleSubmit_accepted:
  assumes "\<not> c_isSubmitting c" "\<not> disabled"
      and "validateFields RegExp (formData c) (form_fields cfg) (True, Map.empty) = Inr r"
  shows "handleSubmit RegExp page outcome cfg disabled c =
           (Some TypeError, c\<lparr>c_errors := snd r\<rparr>, [])"
  using assms
  by (simp add: handleSubmit_def callStoreMethod_def storeMethods_def js_simps)

text \<open>
  C3. The claim: for a required field whose value is empty or whitespace-only, submitting
  produces the error \<^verbatim>\<open><label> is required\<close> and the handler returns without a network
  call. On the spec's scenario (one required text field \<^verbatim>\<open>name\<close>, submitted empty) the code
  computes \<^verbatim>\<open>Name is required\<close> and assigns it to the component's \<^verbatim>\<open>errors\<close>; its next
  statement calls \<^verbatim>\<open>formState.updateState\<close>, which the store does not have, and a TypeError
  leaves the handler: it does not return, and it neither passes the errors to the store
  nor dispatches \<^verbatim>\<open>validationError\<close>. No network call is issued.
\<close>

theorem handleSubmit_throws:
  "required nameField \<and>
   getProp (formData unfilledComposer) (name nameField) = Str [] \<and>
   handleSubmit sampleRegExp samplePage (Result True None) (sampleConfig [nameField]) False
     unfilledComposer =
     (Some TypeError,
      unfilledComposer\<lparr>c_errors := [js ''name'' \<mapsto> js ''Name is required'']\<rparr>, [])"
  by (simp add: handleSubmit_def callStoreMethod_def storeMethods_def unfilledComposer_def
      sampleConfig_def nameField_def textField_def getProp_def validateField_def blank_def
      errorOr_def failed_def requiredMsg_def js_simps)

section \<open>Where validate and validateField agree\<close>

text \<open>
  Apart from the pattern check (and the message when both length bounds are violated),
  the store's validate computes what the composer's loop over validateField computes.
\<close>

lemma truthy_falsy: "truthy v = (\<not> falsy v)"
  by (cases v) auto

lemma message_ne:
  "atLeastMsg m \<noteq> []" "noMoreMsg m \<noteq> []"
  by (simp_all add: atLeastMsg_def noMoreMsg_def js_simps)

lemma errorOr_failed: "msg \<noteq> [] \<Longrightarrow> errorOr (failed msg) field = msg"
  by (simp add: errorOr_def failed_simps)

lemma passed_simps: "isValid passed = True"
  by (simp add: passed_def)

lemma validateText_plain:
  assumes "patternOf field = None" "tooShort field s = None \<or> tooLong field s = None"
  shows "\<exists>res. validateText RegExp field s = Inr res \<and>
           validateTextStep field s acc =
             (if isValid res then acc else (False, (snd acc)(name field \<mapsto> errorOr res field)))"
proof (cases "tooShort field s")
  case None
  show ?thesis
  proof (cases "tooLong field s")
    case n: None
    with None assms(1) show ?thesis
      by (simp add: validateText_def validateTextStep_def passed_simps)
  next
    case (Some m)
    with None show ?thesis
      by (simp add: validateText_def validateTextStep_def failed_simps errorOr_failed message_ne)
  qed
next
  case (Some m)
  with assms(2) have "tooLong field s = None" by simp
  with Some show ?thesis
    by (simp add: validateText_def validateTextStep_def failed_simps errorOr_failed message_ne)
qed

lemma validateStep_agrees:
  assumes "plainField d field"
  shows "\<exists>res. validateField RegExp field (getProp d (name field)) = Inr res \<and>
           validateStep d acc field =
             (if isValid res then acc else (False, (snd acc)(name field \<mapsto> errorOr res field)))"
proof -
  let ?v = "getProp d (name field)"
  from assms have plain: "patternOf field = None"
    "tooShort field (toString ?v) = None \<or> tooLong field (toString ?v) = None"
    by (simp_all add: plainField_def)
  show ?thesis
  proof (cases "required field \<and> blank ?v")
    case True
    then show ?thesis
      by (simp add: validateField_def validateStep_def Let_def failed_simps errorOr_required)
  next
    case nb: False
    then have cond: "(required field \<and> blank ?v) = False" by simp
    show ?thesis
    proof (cases "falsy ?v")
      case True
      with nb have "\<not> required field" by (simp add: blank_def)
      with True show ?thesis
        by (simp add: validateField_def validateStep_def Let_def truthy_falsy passed_simps
            blank_def)
    next
      case False
      show ?thesis
      proof (cases "ftype field")
        case Text
        with False validateText_plain [OF plain, of RegExp acc] show ?thesis
          by (simp add: cond validateField_def validateStep_def Let_def truthy_falsy)
      next
        case Textarea
        with False validateText_plain [OF plain, of RegExp acc] show ?thesis
          by (simp add: cond validateField_def validateStep_def Let_def truthy_falsy)
      next
        case Email
        with False show ?thesis
          by (simp add: cond validateField_def validateStep_def Let_def truthy_falsy passed_simps
              failed_simps errorOr_failed js_simps)
      next
        case Phone
        with False show ?thesis
          by (simp add: cond validateField_def validateStep_def Let_def truthy_falsy passed_simps
              failed_simps errorOr_failed js_simps)
      next
        case Select
        with False show ?thesis
          by (simp add: cond validateField_def validateStep_def Let_def truthy_falsy passed_simps)
      next
        case Checkbox
        with False show ?thesis
          by (simp add: cond validateField_def validateStep_def Let_def truthy_falsy passed_simps)
      qed
    qed
  qed
qed

lemma validateFields_agrees:
  "list_all (plainField d) fs \<Longrightarrow>
   validateFields RegExp d fs acc = Inr (foldl (validateStep d) acc fs)"
proof (induction fs arbitrary: acc)
  case Nil
  show ?case by simp
next
  case (Cons f fs)
  then have pf: "plainField d f" and rest: "list_all (plainField d) fs" by simp_all
  from validateStep_agrees [OF pf, of RegExp acc] obtain res where
    res: "validateField RegExp f (getProp d (name f)) = Inr res"
      "validateStep d acc f =
         (if isValid res then acc else (False, (snd acc)(name f \<mapsto> errorOr res f)))"
    by blast
  show ?case
    using res Cons.IH [OF rest] by simp
qed

lemma validate_agrees_without_patterns:
  assumes "config (formState w) = Some cfg"
      and "list_all (plainField (data (formState w))) (form_fields cfg)"
  shows "validateFields RegExp (data (formState w)) (form_fields cfg) (True, Map.empty) =
           Inr (fst (validate w), errors (formState (snd (validate w))))"
  using assms by (simp add: validate_def Let_def validateFields_agrees)

section \<open>POST /api/submit\<close>

lemma sampleDb_lookups:
  "selectForm sampleDb (js ''ZZZ999'') = Inr (None, True)"
  "selectForm sampleDb (js ''ABC123'') = Inr (Some storedForm, False)"
  "config_id storedForm = js ''f1''" "org_id storedForm = js ''org1''"
  "insertAnalytics sampleDb row = None"
  "err_name notJson \<noteq> js ''ZodError''"
  by (simp_all add: sampleDb_def storedForm_def sampleConfig_def notJson_def js_simps)

text \<open>
  What the handler answers once \<^verbatim>\<open>parse\<close> has returned or thrown: the cascade of the
  source, with 500 for everything thrown that is not named ZodError.
\<close>

lemma POST_cascade:
  "(requestJson = Inr body \<and> FormSubmissionSchema_parse body = Inl zodError \<longrightarrow>
      status (POST db clock requestJson) = 400 \<and>
      res_error (POST db clock requestJson) = Some (js ''Invalid submission data'')) \<and>
   (requestJson = Inr body \<and> FormSubmissionSchema_parse body = Inr submission \<and>
    selectForm db (sub_org_code submission) = Inr found \<and> (fst found = None \<or> snd found) \<longrightarrow>
      status (POST db clock requestJson) = 404 \<and>
      res_error (POST db clock requestJson) =
        Some (js ''Invalid organization code or form not found'')) \<and>
   (requestJson = Inr body \<and> FormSubmissionSchema_parse body = Inr submission \<and>
    selectForm db (sub_org_code submission) = Inr (Some stored, False) \<and>
    config_id stored \<noteq> sub_form_id submission \<longrightarrow>
      status (POST db clock requestJson) = 400 \<and>
      res_error (POST db clock requestJson) = Some (js ''Form ID mismatch'')) \<and>
   (requestJson = Inr body \<and> FormSubmissionSchema_parse body = Inr submission \<and>
    selectForm db (sub_org_code submission) = Inr (Some stored, False) \<and>
    config_id stored = sub_form_id submission \<and>
    recordSession db stored submission = None \<and>
    insertAnalytics db (submitEvent stored submission) = None \<longrightarrow>
      status (POST db clock requestJson) = 200 \<and> success (POST db clock requestJson) \<and>
      (\<exists>receipt. res_data (POST db clock requestJson) = Some receipt \<and>
         submission_id receipt = submissionId clock \<and>
         receipt_org_id receipt = org_id stored \<and>
         receipt_form_id receipt = config_id stored)) \<and>
   (err_name e \<noteq> js ''ZodError'' \<and>
    (requestJson = Inl e \<or>
     requestJson = Inr body \<and>
       (FormSubmissionSchema_parse body = Inl e \<or>
        FormSubmissionSchema_parse body = Inr submission \<and>
          (selectForm db (sub_org_code submission) = Inl e \<or>
           selectForm db (sub_org_code submission) = Inr (Some stored, False) \<and>
             config_id stored = sub_form_id submission \<and>
             (recordSession db stored submission = Some e \<or>
              recordSession db stored submission = None \<and>
                insertAnalytics db (submitEvent stored submission) = Some e)))) \<longrightarrow>
      status (POST db clock requestJson) = 500)"
  by (auto simp add: POST_def onError_def rejection_def zodError_def accepted_def
      split: option.splits)

text \<open>A payload whose \<^verbatim>\<open>data\<close> has no entry goes through the cascade to 200.\<close>

lemma POST_empty_data:
  "status (POST sampleDb sampleClock (Inr (emptyBodyFor ''f1'' ''ABC123''))) = 200"
  by (simp add: POST_def FormSubmissionSchema_parse_def recordThrows_def emptyBodyFor_def
      optionalString_def sampleDb_def storedForm_def sampleConfig_def recordSession_def
      accepted_def js_simps)

text \<open>A body that is not JSON is answered with 500.\<close>

lemma POST_not_json:
  "status (POST sampleDb sampleClock (Inl notJson)) = 500"
  by (simp add: POST_def onError_def notJson_def rejection_def js_simps)

text \<open>
  C4. The claim: a body that fails structural validation gets 400, an unknown
  \<^verbatim>\<open>org_code\<close> 404, a \<^verbatim>\<open>form_id\<close> mismatch 400, and everything else 200 with the stored
  configuration's ids. On the spec's own valid payload (\<^verbatim>\<open>form_id\<close> f1, \<^verbatim>\<open>org_code\<close> ABC123,
  \<^verbatim>\<open>data\<close> with the entry name = Jane) against the matching stored configuration, parsing
  the \<^verbatim>\<open>data\<close> record throws a TypeError, and the catch block answers 500 with
  \<^verbatim>\<open>success\<close> false. The same payload with another \<^verbatim>\<open>form_id\<close> or an unknown \<^verbatim>\<open>org_code\<close>
  gets 500 as well, where the claim has 400 and 404.
\<close>

theorem POST_scenario_throws:
  "FormSubmissionSchema_parse (bodyFor ''f1'' ''ABC123'') = Inl recordTypeError \<and>
   selectForm sampleDb (js ''ABC123'') = Inr (Some storedForm, False) \<and>
   config_id storedForm = js ''f1'' \<and>
   status (POST sampleDb sampleClock (Inr (bodyFor ''f1'' ''ABC123''))) = 500 \<and>
   success (POST sampleDb sampleClock (Inr (bodyFor ''f1'' ''ABC123''))) = False \<and>
   status (POST sampleDb sampleClock (Inr (bodyFor ''f2'' ''ABC123''))) = 500 \<and>
   status (POST sampleDb sampleClock (Inr (bodyFor ''f1'' ''ZZZ999''))) = 500"
proof -
  have parse: "FormSubmissionSchema_parse (bodyFor f c) = Inl recordTypeError" for f c
    by (simp add: FormSubmissionSchema_parse_def recordThrows_def bodyFor_def js_simps)
  have caught: "status (onError recordTypeError) = 500" "success (onError recordTypeError) = False"
    by (simp_all add: onError_def recordTypeError_def rejection_def js_simps)
  show ?thesis
    using parse caught by (simp add: POST_def sampleDb_lookups)
qed

end
